theory Spec2Isabelle
  imports Main "HOL-Library.AList" "HOL-Library.Sublist"
begin

section \<open>Python values and the object store\<close>

text \<open>
  The module \<^verbatim>\<open>ctrl_7b_tp_sample_av_mv.py\<close> builds nested dictionaries, lists and
  deferred constructor calls, copies them with \<^verbatim>\<open>copy.deepcopy\<close> and overwrites
  fields of the copy. Dictionaries and lists are mutable objects that Python variables
  and container slots hold by reference, so the model keeps them in an explicit store:
  an address is an index into the list of allocated objects, and a container slot
  holds either a scalar or a reference.

  Floating-point constants are never inspected by this module; a float is kept as the
  source expression that denotes it.
\<close>

type_synonym addr = nat

datatype val =
    NoneV
  | BoolV bool
  | IntV int
  | FloatV string
  | StrV string
  | Ref addr

datatype key = K string | KI int

text \<open>
  Modelled from the spec: \<^verbatim>\<open>LazyDict\<close> and \<^verbatim>\<open>LazyCall\<close> of
  \<^verbatim>\<open>cosmos_transfer1.utils.lazy_config\<close> are not part of the sources at hand. A
  Configuration Tree is an ordered mapping from keys to values (\<open>Tree\<close>); a Deferred
  Construction Node records the name of its target, which is never invoked, and the
  mapping of its arguments (\<open>Node\<close>); a sequence is \<open>Seq\<close>.
\<close>

datatype obj =
    Tree "(key \<times> val) list"
  | Node string "(key \<times> val) list"
  | Seq "val list"

type_synonym heap = "obj list"

datatype error = KeyError | TypeError

definition alloc :: "obj \<Rightarrow> heap \<Rightarrow> val \<times> heap" where
  "alloc ob h = (Ref (length h), h @ [ob])"

subsection \<open>Subscription\<close>

text \<open>
  \<^verbatim>\<open>x[k]\<close> with a string key \<open>k\<close>, the only form of subscription in the module.
  A missing key raises \<^verbatim>\<open>KeyError\<close>; a list, a scalar, or an address that holds no
  object cannot be subscripted with a string.
\<close>

definition getitem :: "heap \<Rightarrow> val \<Rightarrow> string \<Rightarrow> error + val" where
  "getitem h x k =
     (case x of
        Ref a \<Rightarrow>
          (if a < length h then
             (case h ! a of
                Tree kvs \<Rightarrow> (case map_of kvs (K k) of None \<Rightarrow> Inl KeyError | Some v \<Rightarrow> Inr v)
              | Node t kvs \<Rightarrow> (case map_of kvs (K k) of None \<Rightarrow> Inl KeyError | Some v \<Rightarrow> Inr v)
              | Seq vs \<Rightarrow> Inl TypeError)
           else Inl TypeError)
      | _ \<Rightarrow> Inl TypeError)"

text \<open>
  \<^verbatim>\<open>x[k] = v\<close>: an existing key keeps its position, a new key goes to the end, as in
  a Python dictionary.
\<close>

definition setitem :: "heap \<Rightarrow> val \<Rightarrow> string \<Rightarrow> val \<Rightarrow> error + heap" where
  "setitem h x k v =
     (case x of
        Ref a \<Rightarrow>
          (if a < length h then
             (case h ! a of
                Tree kvs \<Rightarrow> Inr (h[a := Tree (AList.update (K k) v kvs)])
              | Node t kvs \<Rightarrow> Inr (h[a := Node t (AList.update (K k) v kvs)])
              | Seq vs \<Rightarrow> Inl TypeError)
           else Inl TypeError)
      | _ \<Rightarrow> Inl TypeError)"

text \<open>\<^verbatim>\<open>x[k1][k2]...[kn]\<close>, read left to right.\<close>

fun lookup_path :: "heap \<Rightarrow> val \<Rightarrow> string list \<Rightarrow> error + val" where
  "lookup_path h x [] = Inr x"
| "lookup_path h x (k # ks) =
     (case getitem h x k of Inl e \<Rightarrow> Inl e | Inr y \<Rightarrow> lookup_path h y ks)"

text \<open>The elements of a list object, for reading \<^verbatim>\<open>latent_shape\<close> and \<^verbatim>\<open>layer_mask\<close>.\<close>

definition seq_items :: "heap \<Rightarrow> error + val \<Rightarrow> val list option" where
  "seq_items h r =
     (case r of
        Inr (Ref a) \<Rightarrow>
          (if a < length h then (case h ! a of Seq vs \<Rightarrow> Some vs | _ \<Rightarrow> None) else None)
      | _ \<Rightarrow> None)"

section \<open>Strings\<close>

text \<open>Decimal rendering of an integer in an f-string.\<close>

fun str_nat :: "nat \<Rightarrow> string" where
  "str_nat n =
     (if n < 10 then [''0123456789'' ! n]
      else str_nat (n div 10) @ [''0123456789'' ! (n mod 10)])"

declare str_nat.simps [simp del]

definition str_int :: "int \<Rightarrow> string" where
  "str_int i = (if i < 0 then CHR ''-'' # str_nat (nat (- i)) else str_nat (nat i))"

text \<open>
  \<^verbatim>\<open>f"{x}"\<close> for a value read from a tree: the text \<^verbatim>\<open>str(x)\<close>, which exists for
  every value. Strings, integers, booleans and \<^verbatim>\<open>None\<close> are rendered here as Python
  does. The text of a float (kept as its source expression) and of a container (whose
  \<^verbatim>\<open>__str__\<close> belongs to classes that are not part of the sources at hand, and reads
  the store) is given by the parameter \<open>str_of\<close>; nothing is assumed of it, so
  what is proved holds whatever these texts are.
\<close>

definition py_str :: "(heap \<Rightarrow> val \<Rightarrow> string) \<Rightarrow> heap \<Rightarrow> val \<Rightarrow> string" where
  "py_str str_of h v =
     (case v of
        StrV s \<Rightarrow> s
      | IntV i \<Rightarrow> str_int i
      | BoolV b \<Rightarrow> (if b then ''True'' else ''False'')
      | NoneV \<Rightarrow> ''None''
      | _ \<Rightarrow> str_of h v)"

text \<open>\<^verbatim>\<open>os.path.dirname\<close>, \<^verbatim>\<open>os.path.basename\<close> and \<^verbatim>\<open>os.path.join\<close> (posixpath).\<close>

definition basename :: "string \<Rightarrow> string" where
  "basename p = rev (takeWhile (\<lambda>c. c \<noteq> CHR ''/'') (rev p))"

definition dirname :: "string \<Rightarrow> string" where
  "dirname p =
     (let head = rev (dropWhile (\<lambda>c. c \<noteq> CHR ''/'') (rev p))
      in if head \<noteq> [] \<and> head \<noteq> replicate (length head) (CHR ''/'')
         then rev (dropWhile (\<lambda>c. c = CHR ''/'') (rev head))
         else head)"

definition join_step :: "string \<Rightarrow> string \<Rightarrow> string" where
  "join_step path b =
     (if take 1 b = ''/'' then b
      else if path = [] \<or> last path = CHR ''/'' then path @ b
      else path @ ''/'' @ b)"

definition path_join :: "string \<Rightarrow> string list \<Rightarrow> string" where
  "path_join a p = foldl join_step a p"

text \<open>\<^verbatim>\<open>s.replace(old, new)\<close>: every occurrence, left to right, without overlap.\<close>

function replace :: "string \<Rightarrow> string \<Rightarrow> string \<Rightarrow> string" where
  "replace s old new =
     (if old = [] then concat (map (\<lambda>c. new @ [c]) s) @ new
      else if s = [] then []
      else if take (length old) s = old then new @ replace (drop (length old) s) old new
      else hd s # replace (tl s) old new)"
  by pat_completeness auto
termination
  by (relation "measure (\<lambda>(s, old, new). length s)") (auto simp: neq_Nil_conv)

declare replace.simps [simp del]

section \<open>Building a tree from a literal expression\<close>

text \<open>
  The argument of \<^verbatim>\<open>LazyDict(dict(...))\<close> is one nested literal. Python evaluates the
  items of a dictionary or list display from left to right and creates the container
  once its items exist, so every container is allocated after the containers it holds.
  \<open>Const\<close> carries a value that exists already: a scalar, or a reference held in a
  variable (the dataset node, which four slots share).
\<close>

datatype expr =
    Const val
  | DictE "(key \<times> expr) list"
  | ListE "expr list"
  | LazyCall string "(key \<times> expr) list"

fun build :: "expr \<Rightarrow> heap \<Rightarrow> val \<times> heap"
  and build_fields :: "(key \<times> expr) list \<Rightarrow> heap \<Rightarrow> (key \<times> val) list \<times> heap"
  and build_items :: "expr list \<Rightarrow> heap \<Rightarrow> val list \<times> heap" where
  "build (Const v) h = (v, h)"
| "build (DictE kes) h = (case build_fields kes h of (kvs, h') \<Rightarrow> alloc (Tree kvs) h')"
| "build (ListE es) h = (case build_items es h of (vs, h') \<Rightarrow> alloc (Seq vs) h')"
| "build (LazyCall t kes) h = (case build_fields kes h of (kvs, h') \<Rightarrow> alloc (Node t kvs) h')"
| "build_fields [] h = ([], h)"
| "build_fields ((k, e) # kes) h =
     (case build e h of (v, h') \<Rightarrow>
        (case build_fields kes h' of (kvs, h'') \<Rightarrow> ((k, v) # kvs, h'')))"
| "build_items [] h = ([], h)"
| "build_items (e # es) h =
     (case build e h of (v, h') \<Rightarrow>
        (case build_items es h' of (vs, h'') \<Rightarrow> (v # vs, h'')))"

section \<open>The module\<close>

text \<open>
  The constants imported from \<^verbatim>\<open>cosmos_transfer1.checkpoints\<close> are not part of the
  sources at hand; they are parameters of the model.
\<close>

record checkpoints =
  SV2MV_t2v_BASE_CHECKPOINT_AV_SAMPLE_PATH_dbg :: string
  SV2MV_t2v_HDMAP2WORLD_CONTROLNET_7B_CHECKPOINT_PATH_dbg :: string
  SV2MV_t2v_LIDAR2WORLD_CONTROLNET_7B_CHECKPOINT_PATH_dbg :: string

definition num_blocks :: nat where
  "num_blocks = 28"

definition ckpt_root :: string where
  "ckpt_root = ''checkpoints/''"

definition data_root :: string where
  "data_root = ''datasets/waymo_transfer/''"

definition mv_model_names :: "checkpoints \<Rightarrow> (string \<times> string) list" where
  "mv_model_names ck =
     [(''hdmap'', SV2MV_t2v_HDMAP2WORLD_CONTROLNET_7B_CHECKPOINT_PATH_dbg ck),
      (''lidar'', SV2MV_t2v_LIDAR2WORLD_CONTROLNET_7B_CHECKPOINT_PATH_dbg ck)]"

definition job_name_of :: "string \<Rightarrow> int \<Rightarrow> string \<Rightarrow> bool \<Rightarrow> int \<Rightarrow> string" where
  "job_name_of hint_key num_control_blocks pretrain_model_path t2v num_frames =
     (if pretrain_model_path = [] then
        (if t2v then
           ''CTRL_7Bv1pt3_t2v_sv2mv_'' @ str_int num_frames @ ''frames_'' @ hint_key
             @ ''_block'' @ str_int num_control_blocks @ ''_pretrain''
         else
           ''CTRL_7Bv1pt3_lvg_sv2mv_'' @ str_int num_frames @ ''frames_'' @ hint_key
             @ ''_block'' @ str_int num_control_blocks @ ''_pretrain'')
      else
        (if t2v then
           ''CTRL_7Bv1pt3_t2v_sv2mv_'' @ str_int num_frames @ ''frames_'' @ hint_key
             @ ''_block'' @ str_int num_control_blocks @ ''_posttrain''
         else
           ''CTRL_7Bv1pt3_lvg_sv2mv_'' @ str_int num_frames @ ''frames_'' @ hint_key
             @ ''_block'' @ str_int num_control_blocks @ ''_posttrain''))"

definition job_project_of :: "string \<Rightarrow> bool \<Rightarrow> string" where
  "job_project_of pretrain_model_path t2v =
     (if pretrain_model_path = [] then
        (if t2v then ''cosmos_transfer1_pretrain'' else ''cosmos_transfer1_pretrain'')
      else
        (if t2v then ''cosmos_transfer1_posttrain'' else ''cosmos_transfer1_posttrain''))"

definition example_multiview_dataset_waymo :: "string \<Rightarrow> int \<Rightarrow> expr" where
  "example_multiview_dataset_waymo hint_key num_frames =
     LazyCall ''AVTransferDataset''
       [(K ''dataset_dir'', Const (StrV data_root)),
        (K ''num_frames'', Const (IntV num_frames)),
        (K ''hint_key'', Const (StrV hint_key)),
        (K ''resolution'', Const (StrV ''720'')),
        (K ''view_keys'', ListE
           [Const (StrV ''pinhole_front''), Const (StrV ''pinhole_front_left''),
            Const (StrV ''pinhole_front_right''), Const (StrV ''pinhole_side_left''),
            Const (StrV ''pinhole_side_right'')]),
        (K ''caption_view_idx_map'', DictE
           [(KI 0, Const (IntV 0)), (KI 1, Const (IntV 1)), (KI 2, Const (IntV 2)),
            (KI 3, Const (IntV 4)), (KI 4, Const (IntV 5))]),
        (K ''sample_n_views'', Const (IntV 3)),
        (K ''load_mv_emb'', Const (BoolV False)),
        (K ''is_train'', Const (BoolV True))]"

definition ctrl_config :: "checkpoints \<Rightarrow> string \<Rightarrow> int \<Rightarrow> string \<Rightarrow> bool \<Rightarrow> int \<Rightarrow> val \<Rightarrow> expr" where
  "ctrl_config ck hint_key num_control_blocks pretrain_model_path t2v num_frames dataset =
     DictE
       [(K ''defaults'', ListE
           [DictE [(K ''override /net'', Const (StrV ''faditv2_7b''))],
            DictE [(K ''override /net_ctrl'', Const (StrV ''faditv2_sv2mv''))],
            DictE [(K ''override /conditioner'',
                    Const (StrV ''view_cond_ctrlnet_add_fps_image_size_padding_mask''))],
            DictE [(K ''override /tokenizer'',
                    Const (StrV ''cosmos_diffusion_tokenizer_res720_comp8x8x8_t121_ver092624''))],
            DictE [(K ''override /hint_key'', Const (StrV hint_key))],
            DictE [(K ''override /callbacks'', Const (StrV ''basic''))],
            DictE [(K ''override /checkpoint'', Const (StrV ''local''))],
            DictE [(K ''override /ckpt_klass'', Const (StrV ''fast_tp''))],
            Const (StrV ''_self_'')]),
        (K ''job'', DictE
           [(K ''group'', Const (StrV ''CTRL_7Bv1_sampleAV'')),
            (K ''project'', Const (StrV (job_project_of pretrain_model_path t2v))),
            (K ''name'', Const (StrV
               (job_name_of hint_key num_control_blocks pretrain_model_path t2v num_frames)))]),
        (K ''optimizer'', DictE
           [(K ''lr'', Const (FloatV ''2 ** (-14.3)'')),
            (K ''weight_decay'', Const (FloatV ''0.1'')),
            (K ''betas'', ListE [Const (FloatV ''0.9''), Const (FloatV ''0.99'')]),
            (K ''eps'', Const (FloatV ''1e-10''))]),
        (K ''checkpoint'', DictE
           [(K ''load_path'', Const (StrV pretrain_model_path)),
            (K ''broadcast_via_filesystem'', Const (BoolV True)),
            (K ''save_iter'', Const (IntV 1000)),
            (K ''load_training_state'', Const (BoolV False)),
            (K ''strict_resume'', Const (BoolV False)),
            (K ''keys_not_to_resume'', ListE [])]),
        (K ''trainer'', DictE
           [(K ''distributed_parallelism'', Const (StrV ''ddp'')),
            (K ''logging_iter'', Const (IntV 200)),
            (K ''max_iter'', Const (IntV 999999999)),
            (K ''callbacks'', DictE
               [(K ''iter_speed'', DictE [(K ''hit_thres'', Const (IntV 5))])]),
            (K ''timestamp_seed'', Const (BoolV True))]),
        (K ''model_parallel'', DictE
           [(K ''tensor_model_parallel_size'', Const (IntV 8)),
            (K ''sequence_parallel'', Const (BoolV True))]),
        (K ''model'', DictE
           [(K ''fsdp_enabled'', Const (BoolV False)),
            (K ''n_views'', Const (IntV 3)),
            (K ''context_parallel_size'', Const (IntV 1)),
            (K ''loss_reduce'', Const (StrV ''mean'')),
            (K ''latent_shape'', ListE
               [Const (IntV 16),
                Const (IntV ((num_frames - 1) div 8 + 1)),
                Const (IntV 88),
                Const (IntV 160)]),
            (K ''base_load_from'', DictE
               [(K ''load_path'', Const (StrV
                   (path_join ckpt_root
                      [dirname (SV2MV_t2v_BASE_CHECKPOINT_AV_SAMPLE_PATH_dbg ck),
                       ''checkpoints_tp'', ''model_model_mp_*.pt''])))]),
            (K ''finetune_base_model'', Const (BoolV False)),
            (K ''hint_mask'', ListE [Const (BoolV True)]),
            (K ''hint_dropout_rate'', Const (FloatV ''0.15'')),
            (K ''conditioner'', DictE
               [(K ''video_cond_bool'', DictE
                   [(K ''condition_location'', Const (StrV ''first_random_n'')),
                    (K ''cfg_unconditional_type'',
                     Const (StrV ''zero_condition_region_condition_mask'')),
                    (K ''apply_corruption_to_condition_region'', Const (StrV ''noise_with_sigma'')),
                    (K ''condition_on_augment_sigma'', Const (BoolV False)),
                    (K ''dropout_rate'', Const (FloatV ''0.0'')),
                    (K ''first_random_n_num_condition_t_max'', Const (IntV (if t2v then 0 else 2))),
                    (K ''normalize_condition_latent'', Const (BoolV False)),
                    (K ''augment_sigma_sample_p_mean'', Const (FloatV ''-3.0'')),
                    (K ''augment_sigma_sample_p_std'', Const (FloatV ''2.0'')),
                    (K ''augment_sigma_sample_multiplier'', Const (FloatV ''1.0''))])]),
            (K ''net'', LazyCall ''VideoExtendGeneralDIT''
               [(K ''in_channels'', Const (IntV 17)),
                (K ''n_views'', Const (IntV 3)),
                (K ''n_views_emb'', Const (IntV 7)),
                (K ''view_condition_dim'', Const (IntV 6)),
                (K ''add_repeat_frame_embedding'', Const (BoolV True)),
                (K ''extra_per_block_abs_pos_emb'', Const (BoolV True)),
                (K ''pos_emb_learnable'', Const (BoolV True)),
                (K ''extra_per_block_abs_pos_emb_type'', Const (StrV ''learnable'')),
                (K ''num_blocks'', Const (IntV (int num_blocks)))]),
            (K ''adjust_video_noise'', Const (BoolV True)),
            (K ''net_ctrl'', DictE
               [(K ''in_channels'', Const (IntV 16)),
                (K ''hint_channels'', Const (IntV 16)),
                (K ''num_blocks'', Const (IntV (int num_blocks))),
                (K ''n_views'', Const (IntV 3)),
                (K ''n_views_emb'', Const (IntV 7)),
                (K ''view_condition_dim'', Const (IntV 6)),
                (K ''add_repeat_frame_embedding'', Const (BoolV True)),
                (K ''is_extend_model'', Const (BoolV True)),
                (K ''layer_mask'', ListE
                   (map (\<lambda>i. Const (BoolV (if int i \<ge> num_control_blocks then True else False)))
                      [0..<num_blocks])),
                (K ''extra_per_block_abs_pos_emb'', Const (BoolV True)),
                (K ''pos_emb_learnable'', Const (BoolV True)),
                (K ''extra_per_block_abs_pos_emb_type'', Const (StrV ''learnable''))]),
            (K ''tokenizer'', DictE
               [(K ''pixel_chunk_duration'', Const (IntV num_frames))])]),
        (K ''model_obj'', LazyCall ''MultiVideoDiffusionModelWithCtrl'' []),
        (K ''dataloader_train'', LazyCall ''DataLoader''
           [(K ''dataset'', Const dataset),
            (K ''sampler'', LazyCall ''get_sampler'' [(K ''dataset'', Const dataset)]),
            (K ''batch_size'', Const (IntV 1)),
            (K ''drop_last'', Const (BoolV True)),
            (K ''pin_memory'', Const (BoolV True)),
            (K ''num_workers'', Const (IntV 8))]),
        (K ''dataloader_val'', LazyCall ''DataLoader''
           [(K ''dataset'', Const dataset),
            (K ''sampler'', LazyCall ''get_sampler'' [(K ''dataset'', Const dataset)]),
            (K ''batch_size'', Const (IntV 1)),
            (K ''drop_last'', Const (BoolV True)),
            (K ''pin_memory'', Const (BoolV True)),
            (K ''num_workers'', Const (IntV 8))])]"

definition make_ctrlnet_config ::
  "checkpoints \<Rightarrow> string \<Rightarrow> int \<Rightarrow> string \<Rightarrow> bool \<Rightarrow> int \<Rightarrow> heap \<Rightarrow> val \<times> heap" where
  "make_ctrlnet_config ck hint_key num_control_blocks pretrain_model_path t2v num_frames h =
     (case build (example_multiview_dataset_waymo hint_key num_frames) h of
        (dataset, h') \<Rightarrow>
          build (ctrl_config ck hint_key num_control_blocks pretrain_model_path t2v num_frames
                   dataset) h')"

definition num_control_blocks :: int where
  "num_control_blocks = 3"

section \<open>Deep copy\<close>

text \<open>
  \<^verbatim>\<open>copy.deepcopy\<close> walks the objects reachable from its argument depth first. For
  a dictionary or a list it creates an empty container, enters it in the memo under
  the identity of the original, and fills it with the copies of the items in order; an
  object already in the memo is not copied again, so sharing (and a cycle) in the
  original is reproduced in the copy; scalars and constructor targets are atomic and
  returned as they are.

  The recursion is unfolded over an explicit stack of pending slots. A new container
  is allocated with the keys (or the length) of the original and \<^verbatim>\<open>None\<close> in every
  slot; \<open>Task d i v\<close> says that slot \<open>i\<close> of the new object \<open>d\<close> receives the
  copy of \<open>v\<close>. The tasks of a new object go on top of the stack, which is the order of
  the recursive calls. \<open>n0\<close> is the size of the store when the copy starts: only
  objects below it are originals.
\<close>

fun obj_vals :: "obj \<Rightarrow> val list" where
  "obj_vals (Tree kvs) = map snd kvs"
| "obj_vals (Node t kvs) = map snd kvs"
| "obj_vals (Seq vs) = vs"

fun blank :: "obj \<Rightarrow> obj" where
  "blank (Tree kvs) = Tree (map (\<lambda>kv. (fst kv, NoneV)) kvs)"
| "blank (Node t kvs) = Node t (map (\<lambda>kv. (fst kv, NoneV)) kvs)"
| "blank (Seq vs) = Seq (map (\<lambda>v. NoneV) vs)"

fun put_val :: "obj \<Rightarrow> nat \<Rightarrow> val \<Rightarrow> obj" where
  "put_val (Tree kvs) i v = Tree (kvs[i := (fst (kvs ! i), v)])"
| "put_val (Node t kvs) i v = Node t (kvs[i := (fst (kvs ! i), v)])"
| "put_val (Seq vs) i v = Seq (vs[i := v])"

datatype task = Task addr nat val

definition tasks_for :: "addr \<Rightarrow> obj \<Rightarrow> task list" where
  "tasks_for d ob = map (\<lambda>i. Task d i (obj_vals ob ! i)) [0..<length (obj_vals ob)]"

definition store_val :: "heap \<Rightarrow> addr \<Rightarrow> nat \<Rightarrow> val \<Rightarrow> heap" where
  "store_val h d i v = h[d := put_val (h ! d) i v]"

type_synonym memo = "(addr \<times> addr) list"

lemma unvisited_decreases:
  "(a::nat) < n0 \<Longrightarrow> a \<notin> fst ` set m \<Longrightarrow>
   card ({..<n0} - fst ` set m) - Suc 0 < card ({..<n0} - fst ` set m)"
proof -
  assume "a < n0" "a \<notin> fst ` set m"
  then have "a \<in> {..<n0} - fst ` set m" by simp
  then have "0 < card ({..<n0} - fst ` set m)"
    by (auto simp: card_gt_0_iff)
  then show ?thesis by simp
qed

function copy_loop :: "nat \<Rightarrow> task list \<Rightarrow> heap \<Rightarrow> memo \<Rightarrow> heap \<times> memo" where
  "copy_loop n0 [] h m = (h, m)"
| "copy_loop n0 (Task d i v # ts) h m =
     (case v of
        Ref a \<Rightarrow>
          (case map_of m a of
             Some a' \<Rightarrow> copy_loop n0 ts (store_val h d i (Ref a')) m
           | None \<Rightarrow>
               if a < n0 \<and> a < length h then
                 copy_loop n0 (tasks_for (length h) (h ! a) @ ts)
                   (store_val h d i (Ref (length h)) @ [blank (h ! a)])
                   ((a, length h) # m)
               else copy_loop n0 ts (store_val h d i v) m)
      | _ \<Rightarrow> copy_loop n0 ts (store_val h d i v) m)"
  by pat_completeness auto
termination
  apply (relation "inv_image (less_than <*lex*> less_than)
         (\<lambda>(n0, ts, h, m). (card ({..<n0} - fst ` set m), length ts))")
  apply (auto simp: map_of_eq_None_iff unvisited_decreases)
  done

definition deepcopy :: "heap \<Rightarrow> val \<Rightarrow> val \<times> heap" where
  "deepcopy h x =
     (case x of
        Ref a \<Rightarrow>
          (if a < length h then
             (Ref (length h),
              fst (copy_loop (length h) (tasks_for (length h) (h ! a))
                     (h @ [blank (h ! a)]) [(a, length h)]))
           else (x, h))
      | _ \<Rightarrow> (x, h))"

section \<open>Statements that may raise\<close>

text \<open>
  A statement takes the store and returns the store it leaves behind together with
  its value or the exception it raised; \<open>andthen\<close> runs the rest of a block only when
  the statement returned.
\<close>

definition andthen ::
  "(error + 'a) \<times> heap \<Rightarrow> ('a \<Rightarrow> heap \<Rightarrow> (error + 'b) \<times> heap) \<Rightarrow> (error + 'b) \<times> heap" where
  "andthen r f = (case r of (Inl e, h) \<Rightarrow> (Inl e, h) | (Inr x, h) \<Rightarrow> f x h)"

definition get_path :: "val \<Rightarrow> string list \<Rightarrow> heap \<Rightarrow> (error + val) \<times> heap" where
  "get_path x ks h = (lookup_path h x ks, h)"

text \<open>\<^verbatim>\<open>x[k1]...[kn][k] = v\<close>: the target is found first, then the item is set.\<close>

definition assign :: "val \<Rightarrow> string list \<Rightarrow> string \<Rightarrow> val \<Rightarrow> heap \<Rightarrow> (error + unit) \<times> heap" where
  "assign x ks k v h =
     (case lookup_path h x ks of
        Inl e \<Rightarrow> (Inl e, h)
      | Inr y \<Rightarrow> (case setitem h y k v of Inl e \<Rightarrow> (Inl e, h) | Inr h' \<Rightarrow> (Inr (), h')))"

definition render ::
  "(heap \<Rightarrow> val \<Rightarrow> string) \<Rightarrow> val \<Rightarrow> heap \<Rightarrow> (error + string) \<times> heap" where
  "render str_of v h = (Inr (py_str str_of h v), h)"

section \<open>The debug variant\<close>

text \<open>
  The overwrites that \<^verbatim>\<open>make_small_config\<close> applies to the copy (lines 216 to 229),
  in the order of the source. The right-hand side of an assignment is evaluated before
  its target, so the name is read and rendered before \<^verbatim>\<open>small_config["job"]\<close> is
  looked up again, and the new \<^verbatim>\<open>layer_mask\<close> list exists before its target is found.
\<close>

definition small_config_overwrites ::
  "(heap \<Rightarrow> val \<Rightarrow> string) \<Rightarrow> val \<Rightarrow> bool \<Rightarrow> heap \<Rightarrow> (error + val) \<times> heap" where
  "small_config_overwrites str_of small_config net_ctrl h =
     (andthen (assign small_config [''job''] ''group'' (StrV ''debug'') h) (\<lambda>_ h.
      andthen (get_path small_config [''job'', ''name''] h) (\<lambda>name h.
      andthen (render str_of name h) (\<lambda>s h.
      andthen (assign small_config [''job''] ''name'' (StrV (s @ ''_SMALL'')) h) (\<lambda>_ h.
      let num_blocks_small = (2::nat) in
      andthen (assign small_config [''model'', ''net''] ''num_blocks''
                 (IntV (int num_blocks_small)) h) (\<lambda>_ h.
      andthen
        (if net_ctrl then
           andthen (assign small_config [''model'', ''net_ctrl''] ''num_blocks''
                      (IntV (int num_blocks_small)) h) (\<lambda>_ h.
           case alloc (Seq (map (\<lambda>i. BoolV (if i \<ge> num_blocks_small div 2 then True else False))
                              [0..<num_blocks_small])) h of (layer_mask, h) \<Rightarrow>
           assign small_config [''model'', ''net_ctrl''] ''layer_mask'' layer_mask h)
         else (Inr (), h)) (\<lambda>_ h.
      andthen (assign small_config [''model_parallel''] ''tensor_model_parallel_size''
                 (IntV 1) h) (\<lambda>_ h.
      andthen (assign small_config [''model_parallel''] ''sequence_parallel''
                 (BoolV False) h) (\<lambda>_ h.
      andthen (assign small_config [''checkpoint''] ''load_path'' (StrV []) h) (\<lambda>_ h.
      andthen (assign small_config [''model'', ''base_load_from''] ''load_path''
                 (StrV []) h) (\<lambda>_ h.
      (Inr small_config, h))))))))))))"

definition make_small_config ::
  "(heap \<Rightarrow> val \<Rightarrow> string) \<Rightarrow> val \<Rightarrow> bool \<Rightarrow> heap \<Rightarrow> (error + val) \<times> heap" where
  "make_small_config str_of base_config net_ctrl h =
     (case deepcopy h base_config of
        (small_config, h) \<Rightarrow> small_config_overwrites str_of small_config net_ctrl h)"

section \<open>The generation loop\<close>

text \<open>
  Modelled from the spec: \<^verbatim>\<open>ConfigStore\<close> (of hydra) is not part of the sources at
  hand. The model keeps the calls of \<^verbatim>\<open>cs.store\<close> in the order in which they are
  made; the registry they leave is the last call for each pair of group and name.
\<close>

record entry =
  entry_group :: string
  entry_package :: string
  entry_name :: val
  entry_node :: val

definition store :: "entry list \<Rightarrow> string \<Rightarrow> string \<Rightarrow> val \<Rightarrow> val \<Rightarrow> entry list" where
  "store cs g p n t =
     cs @ [\<lparr>entry_group = g, entry_package = p, entry_name = n, entry_node = t\<rparr>]"

definition all_hint_key :: "string list" where
  "all_hint_key = [''control_input_hdmap'', ''control_input_lidar'']"

definition tp_ckpt_path :: "checkpoints \<Rightarrow> string \<Rightarrow> heap \<Rightarrow> (error + string) \<times> heap" where
  "tp_ckpt_path ck key h =
     (let hint_key_short = replace key ''control_input_'' []
      in case map_of (mv_model_names ck) hint_key_short of
           None \<Rightarrow> (Inl KeyError, h)
         | Some pretrain_ckpt_path \<Rightarrow>
             (Inr (path_join ckpt_root
                     [dirname pretrain_ckpt_path, ''checkpoints_tp'',
                      basename pretrain_ckpt_path]), h))"

definition loop_body ::
  "(heap \<Rightarrow> val \<Rightarrow> string) \<Rightarrow> checkpoints \<Rightarrow> string \<Rightarrow> int \<Rightarrow> entry list \<Rightarrow> heap
     \<Rightarrow> (error + entry list) \<times> heap" where
  "loop_body str_of ck key num_frames cs h =
     (case make_ctrlnet_config ck key num_control_blocks [] True num_frames h of
        (t2v_config, h) \<Rightarrow>
      andthen (make_small_config str_of t2v_config True h) (\<lambda>debug_config h.
      andthen (get_path t2v_config [''job'', ''name''] h) (\<lambda>name h.
      let cs = store cs ''experiment'' ''_global_'' name t2v_config in
      andthen (get_path debug_config [''job'', ''name''] h) (\<lambda>name h.
      let cs = store cs ''experiment'' ''_global_'' name debug_config in
      andthen (tp_ckpt_path ck key h) (\<lambda>tp_ckpt_path h.
      case make_ctrlnet_config ck key num_control_blocks tp_ckpt_path True num_frames h of
        (config, h) \<Rightarrow>
      andthen (get_path config [''job'', ''name''] h) (\<lambda>name h.
      (Inr (store cs ''experiment'' ''_global_'' name config), h)))))))"

fun for_each ::
  "('x \<Rightarrow> 'c \<Rightarrow> heap \<Rightarrow> (error + 'c) \<times> heap) \<Rightarrow> 'x list \<Rightarrow> 'c \<Rightarrow> heap \<Rightarrow> (error + 'c) \<times> heap" where
  "for_each body [] c h = (Inr c, h)"
| "for_each body (x # xs) c h = andthen (body x c h) (\<lambda>c h. for_each body xs c h)"

definition generation_loop ::
  "(heap \<Rightarrow> val \<Rightarrow> string) \<Rightarrow> checkpoints \<Rightarrow> entry list \<Rightarrow> heap
     \<Rightarrow> (error + entry list) \<times> heap" where
  "generation_loop str_of ck cs h =
     for_each (\<lambda>key. for_each (\<lambda>num_frames. loop_body str_of ck key num_frames) [57, 121])
       all_hint_key cs h"

section \<open>The copy loop keeps its invariant\<close>

text \<open>
  \<open>copy_inv h0 ts h m\<close>: the state of a copy that started on the store \<open>h0\<close>. The
  originals are untouched, the memo pairs each visited original with a new object of
  the same shape, and every slot of a new object either is still on the stack or
  holds the renamed value of the original slot.
\<close>

lemma length_vals_blank [simp]: "length (obj_vals (blank ob)) = length (obj_vals ob)"
  by (cases ob) simp_all

lemma blank_blank [simp]: "blank (blank ob) = blank ob"
  by (cases ob) simp_all

lemma blank_put_val [simp]: "blank (put_val ob i v) = blank ob"
proof -
  have upd: "map (\<lambda>kv. (fst kv, NoneV)) (kvs[i := (fst (kvs ! i), v)]) = map (\<lambda>kv. (fst kv, NoneV)) kvs"
    for kvs :: "(key \<times> val) list"
    by (cases "i < length kvs") (simp_all add: map_update list_update_same_conv list_update_beyond not_less)
  have upd': "map (\<lambda>v. NoneV) (vs[i := v]) = map (\<lambda>v. NoneV) vs" for vs :: "val list"
    by (cases "i < length vs") (simp_all add: map_update list_update_same_conv list_update_beyond not_less)
  show ?thesis by (cases ob) (simp_all add: upd upd')
qed

lemma vals_put_val [simp]: "obj_vals (put_val ob i v) = (obj_vals ob)[i := v]"
  by (cases ob) (simp_all add: map_update)

lemma blank_eq_length: "blank a = blank b \<Longrightarrow> length (obj_vals a) = length (obj_vals b)"
  by (metis length_vals_blank)

lemma length_store_val [simp]: "length (store_val h d i v) = length h"
  by (simp add: store_val_def)

lemma blank_store_val [simp]: "blank (store_val h d i v ! a) = blank (h ! a)"
  by (cases "a = d"; cases "d < length h") (simp_all add: store_val_def list_update_beyond not_less)

lemma vals_store_val_other:
  "\<not> (a = d \<and> j = i) \<Longrightarrow> obj_vals (store_val h d i v ! a) ! j = obj_vals (h ! a) ! j"
  by (cases "a = d"; cases "d < length h") (simp_all add: store_val_def list_update_beyond not_less)

lemma vals_store_val_same:
  "d < length h \<Longrightarrow> i < length (obj_vals (h ! d)) \<Longrightarrow>
   obj_vals (store_val h d i v ! d) ! i = v"
  by (simp add: store_val_def)

lemma take_store_val [simp]: "n \<le> d \<Longrightarrow> take n (store_val h d i v) = take n h"
  by (simp add: store_val_def)

lemma distinct_snd_unique:
  "distinct (map snd m) \<Longrightarrow> (a, d) \<in> set m \<Longrightarrow> (a2, d) \<in> set m \<Longrightarrow> a2 = a"
  by (induction m) force+

definition rename :: "memo \<Rightarrow> val \<Rightarrow> val" where
  "rename m v = (case v of Ref b \<Rightarrow> (case map_of m b of Some b' \<Rightarrow> Ref b' | None \<Rightarrow> v) | _ \<Rightarrow> v)"

definition settled :: "nat \<Rightarrow> memo \<Rightarrow> val \<Rightarrow> bool" where
  "settled n0 m v = (case v of Ref b \<Rightarrow> b < n0 \<longrightarrow> map_of m b \<noteq> None | _ \<Rightarrow> True)"

definition slot_ok :: "heap \<Rightarrow> task list \<Rightarrow> heap \<Rightarrow> memo \<Rightarrow> addr \<Rightarrow> addr \<Rightarrow> nat \<Rightarrow> bool" where
  "slot_ok h0 ts h m a a' i =
     (Task a' i (obj_vals (h0 ! a) ! i) \<in> set ts \<or>
      (settled (length h0) m (obj_vals (h0 ! a) ! i) \<and>
       obj_vals (h ! a') ! i = rename m (obj_vals (h0 ! a) ! i)))"

definition copy_inv :: "heap \<Rightarrow> task list \<Rightarrow> heap \<Rightarrow> memo \<Rightarrow> bool" where
  "copy_inv h0 ts h m =
     (length h0 \<le> length h \<and> take (length h0) h = h0 \<and>
      distinct (map fst m) \<and> distinct (map snd m) \<and>
      (\<forall>(a, a') \<in> set m. a < length h0 \<and> length h0 \<le> a' \<and> a' < length h \<and>
          blank (h ! a') = blank (h0 ! a) \<and>
          (\<forall>i < length (obj_vals (h0 ! a)). slot_ok h0 ts h m a a' i)) \<and>
      (\<forall>t \<in> set ts. \<exists>a a' i. t = Task a' i (obj_vals (h0 ! a) ! i) \<and> (a, a') \<in> set m \<and>
          i < length (obj_vals (h0 ! a))) \<and>
      (\<forall>a'. length h0 \<le> a' \<and> a' < length h \<longrightarrow> a' \<in> snd ` set m))"

lemma copy_inv_write:
  assumes inv: "copy_inv h0 ts h m"
    and mem: "Task d i v \<in> set ts"
    and st: "settled (length h0) m v"
    and sub: "set ts' \<subseteq> set ts"
    and rest: "set ts - {Task d i v} \<subseteq> set ts'"
  shows "copy_inv h0 ts' (store_val h d i (rename m v)) m"
proof -
  let ?h' = "store_val h d i (rename m v)"
  from inv mem obtain a where ad: "(a, d) \<in> set m" and v: "v = obj_vals (h0 ! a) ! i"
    and i: "i < length (obj_vals (h0 ! a))"
    unfolding copy_inv_def by fastforce
  from inv have dist: "distinct (map snd m)" and tk: "take (length h0) h = h0"
    unfolding copy_inv_def by auto
  from inv ad have d: "length h0 \<le> d" "d < length h" and bl: "blank (h ! d) = blank (h0 ! a)"
    unfolding copy_inv_def by auto
  have uniq: "a2 = a" if "(a2, d) \<in> set m" for a2
    using dist ad that by (rule distinct_snd_unique)
  have tk': "take (length h0) ?h' = h0"
    using d tk by simp
  have slots: "slot_ok h0 ts' ?h' m a2 a2' i2"
    if m2: "(a2, a2') \<in> set m" and i2: "i2 < length (obj_vals (h0 ! a2))" for a2 a2' i2
  proof -
    from inv m2 i2 have old: "slot_ok h0 ts h m a2 a2' i2"
      unfolding copy_inv_def by auto
    show ?thesis
    proof (cases "a2' = d \<and> i2 = i")
      case True
      then have "a2 = a" using uniq m2 by simp
      moreover have "i < length (obj_vals (h ! d))"
        using bl i blank_eq_length by metis
      ultimately show ?thesis
        using True st v d by (simp add: slot_ok_def vals_store_val_same)
    next
      case False
      then have same: "obj_vals (?h' ! a2') ! i2 = obj_vals (h ! a2') ! i2"
        by (rule vals_store_val_other)
      from False have "Task a2' i2 (obj_vals (h0 ! a2) ! i2) \<noteq> Task d i v" by auto
      with old same rest show ?thesis by (auto simp: slot_ok_def)
    qed
  qed
  have tasks: "\<exists>a a' i. t = Task a' i (obj_vals (h0 ! a) ! i) \<and> (a, a') \<in> set m \<and>
          i < length (obj_vals (h0 ! a))" if "t \<in> set ts'" for t
    using inv sub that unfolding copy_inv_def by blast
  show ?thesis
    unfolding copy_inv_def
    using inv tk' slots tasks
    unfolding copy_inv_def by auto
qed

lemma rename_extend:
  "settled n0 m v \<Longrightarrow> map_of m b = None \<Longrightarrow> b < n0 \<Longrightarrow> rename ((b, x) # m) v = rename m v"
  by (auto simp: settled_def rename_def split: val.splits)

lemma settled_extend: "settled n0 m v \<Longrightarrow> settled n0 ((b, x) # m) v"
  by (auto simp: settled_def split: val.splits)

lemma set_tasks_for:
  "set (tasks_for d ob) = (\<lambda>i. Task d i (obj_vals ob ! i)) ` {..<length (obj_vals ob)}"
  by (auto simp: tasks_for_def)

lemma copy_inv_alloc:
  assumes inv: "copy_inv h0 ts h m"
    and b: "b < length h0"
    and fresh: "map_of m b = None"
  shows "copy_inv h0 (tasks_for (length h) (h0 ! b) @ ts) (h @ [blank (h0 ! b)])
           ((b, length h) # m)"
proof -
  let ?n = "length h"
  let ?h' = "h @ [blank (h0 ! b)]"
  let ?m' = "(b, ?n) # m"
  let ?ts' = "tasks_for ?n (h0 ! b) @ ts"
  from inv have len: "length h0 \<le> length h" and tk: "take (length h0) h = h0"
    and d1: "distinct (map fst m)" and d2: "distinct (map snd m)"
    unfolding copy_inv_def by auto
  from inv have rng: "a < length h0 \<and> length h0 \<le> a' \<and> a' < length h"
    if "(a, a') \<in> set m" for a a'
    using that unfolding copy_inv_def by auto
  have bnotin: "b \<notin> fst ` set m"
    using fresh by (simp add: map_of_eq_None_iff)
  have nnotin: "?n \<notin> snd ` set m"
    using rng by force
  have slots_old: "slot_ok h0 ?ts' ?h' ?m' a a' i"
    if m2: "(a, a') \<in> set m" and i: "i < length (obj_vals (h0 ! a))" for a a' i
  proof -
    from inv m2 i have old: "slot_ok h0 ts h m a a' i"
      unfolding copy_inv_def by auto
    from rng m2 have "a' < length h" by simp
    then have "?h' ! a' = h ! a'" by (simp add: nth_append)
    with old show ?thesis
      using rename_extend [OF _ fresh b] settled_extend
      by (auto simp: slot_ok_def)
  qed
  have slots_new: "slot_ok h0 ?ts' ?h' ?m' b ?n i" if "i < length (obj_vals (h0 ! b))" for i
    using that by (simp add: slot_ok_def set_tasks_for)
  have blanks: "blank (?h' ! a') = blank (h0 ! a)" if "(a, a') \<in> set ?m'" for a a'
  proof (cases "(a, a') \<in> set m")
    case True
    with inv have "blank (h ! a') = blank (h0 ! a)" "a' < length h"
      unfolding copy_inv_def by auto
    then show ?thesis by (simp add: nth_append)
  next
    case False
    with that have "a = b" "a' = ?n" by auto
    then show ?thesis by simp
  qed
  have tasks: "\<exists>a a' i. t = Task a' i (obj_vals (h0 ! a) ! i) \<and> (a, a') \<in> set ?m' \<and>
          i < length (obj_vals (h0 ! a))" if "t \<in> set ?ts'" for t
  proof (cases "t \<in> set ts")
    case True
    with inv show ?thesis unfolding copy_inv_def by fastforce
  next
    case False
    with that have "t \<in> set (tasks_for ?n (h0 ! b))" by simp
    then show ?thesis by (auto simp: set_tasks_for)
  qed
  have dom: "a' \<in> snd ` set ?m'" if "length h0 \<le> a'" "a' < length ?h'" for a'
  proof (cases "a' = ?n")
    case True
    then show ?thesis by simp
  next
    case False
    with that have "a' < length h" by simp
    with inv that show ?thesis unfolding copy_inv_def by auto
  qed
  show ?thesis
    unfolding copy_inv_def
  proof (intro conjI)
    show "length h0 \<le> length ?h'" using len by simp
    show "take (length h0) ?h' = h0" using len tk by simp
    show "distinct (map fst ?m')" using d1 bnotin by simp
    show "distinct (map snd ?m')" using d2 nnotin by simp
    show "\<forall>(a, a') \<in> set ?m'. a < length h0 \<and> length h0 \<le> a' \<and> a' < length ?h' \<and>
          blank (?h' ! a') = blank (h0 ! a) \<and>
          (\<forall>i < length (obj_vals (h0 ! a)). slot_ok h0 ?ts' ?h' ?m' a a' i)"
    proof (clarify, intro conjI allI impI)
      fix a a' assume mem: "(a, a') \<in> set ?m'"
      show "a < length h0" using mem b rng [of a a'] by auto
      show "length h0 \<le> a'" using mem len rng [of a a'] by auto
      show "a' < length ?h'" using mem rng [of a a'] by auto
      show "blank (?h' ! a') = blank (h0 ! a)" using mem by (rule blanks)
      fix i assume "i < length (obj_vals (h0 ! a))"
      then show "slot_ok h0 ?ts' ?h' ?m' a a' i"
        using mem slots_old slots_new by auto
    qed
    show "\<forall>t \<in> set ?ts'. \<exists>a a' i. t = Task a' i (obj_vals (h0 ! a) ! i) \<and> (a, a') \<in> set ?m' \<and>
          i < length (obj_vals (h0 ! a))"
      using tasks by blast
    show "\<forall>a'. length h0 \<le> a' \<and> a' < length ?h' \<longrightarrow> a' \<in> snd ` set ?m'"
      using dom by blast
  qed
qed



lemma store_val_append:
  "d < length h \<Longrightarrow> store_val (h @ [x]) d i w = store_val h d i w @ [x]"
  by (simp add: store_val_def nth_append list_update_append)

lemma copy_inv_old: "copy_inv h0 ts h m \<Longrightarrow> a < length h0 \<Longrightarrow> h ! a = h0 ! a"
  unfolding copy_inv_def by (metis nth_take)

lemma copy_loop_inv:
  "copy_inv h0 ts h m \<Longrightarrow> n0 = length h0 \<Longrightarrow> copy_loop n0 ts h m = (h', m') \<Longrightarrow>
   copy_inv h0 [] h' m' \<and> set m \<subseteq> set m'"
proof (induction n0 ts h m arbitrary: h' m' rule: copy_loop.induct)
  case (1 n0 h m)
  then show ?case by simp
next
  case (2 n0 d i v ts h m)
  note inv = "2.prems"(1) and n0 = "2.prems"(2) and run = "2.prems"(3)
  have mem: "Task d i v \<in> set (Task d i v # ts)" by simp
  have len: "length h0 \<le> length h" using inv unfolding copy_inv_def by simp
  from inv mem obtain a0 where dm: "(a0, d) \<in> set m"
    unfolding copy_inv_def by fastforce
  with inv have d: "d < length h" unfolding copy_inv_def by auto
  have plain: ?case
    if st: "settled (length h0) m v" and rn: "rename m v = v"
      and step: "copy_loop n0 (Task d i v # ts) h m = copy_loop n0 ts (store_val h d i v) m"
      and IH: "\<And>h' m'. copy_inv h0 ts (store_val h d i v) m \<Longrightarrow>
                 copy_loop n0 ts (store_val h d i v) m = (h', m') \<Longrightarrow>
                 copy_inv h0 [] h' m' \<and> set m \<subseteq> set m'"
  proof -
    have "copy_inv h0 ts (store_val h d i (rename m v)) m"
      using inv mem st by (rule copy_inv_write) auto
    then show ?thesis using rn step run IH by simp
  qed
  show ?case
  proof (cases v)
    case (Ref a)
    show ?thesis
    proof (cases "map_of m a")
      case (Some a')
      have st: "settled (length h0) m v" using Ref Some by (simp add: settled_def)
      have rn: "rename m v = Ref a'" using Ref Some by (simp add: rename_def)
      have "copy_inv h0 ts (store_val h d i (rename m v)) m"
        using inv mem st by (rule copy_inv_write) auto
      then show ?thesis
        using "2.IH"(8) [OF Ref Some _ n0] Ref Some rn run n0 by simp
    next
      case None
      show ?thesis
      proof (cases "a < n0 \<and> a < length h")
        case True
        then have a: "a < length h0" using n0 by simp
        have old: "h ! a = h0 ! a" using inv a by (rule copy_inv_old)
        let ?m' = "(a, length h) # m"
        have ext: "copy_inv h0 (tasks_for (length h) (h0 ! a) @ Task d i v # ts)
                     (h @ [blank (h0 ! a)]) ?m'"
          using inv a None by (rule copy_inv_alloc)
        have st: "settled (length h0) ?m' v" using Ref by (simp add: settled_def)
        have rn: "rename ?m' v = Ref (length h)" using Ref by (simp add: rename_def)
        have "copy_inv h0 (tasks_for (length h) (h0 ! a) @ ts)
                (store_val (h @ [blank (h0 ! a)]) d i (rename ?m' v)) ?m'"
          using ext _ st by (rule copy_inv_write) auto
        then have inv': "copy_inv h0 (tasks_for (length h) (h ! a) @ ts)
                (store_val h d i (Ref (length h)) @ [blank (h ! a)]) ?m'"
          using rn d old by (simp add: store_val_append)
        have "copy_loop n0 (tasks_for (length h) (h ! a) @ ts)
                (store_val h d i (Ref (length h)) @ [blank (h ! a)]) ?m' = (h', m')"
          using run Ref None True by simp
        with "2.IH"(6) [OF Ref None True inv' n0]
        show ?thesis by auto
      next
        case False
        then have "\<not> a < length h0" using n0 len by auto
        then have st: "settled (length h0) m v" using Ref by (simp add: settled_def)
        have rn: "rename m v = v" using Ref None by (simp add: rename_def)
        show ?thesis
          using st rn
        proof (rule plain)
          show "copy_loop n0 (Task d i v # ts) h m = copy_loop n0 ts (store_val h d i v) m"
            using Ref None False by auto
          show "\<And>h' m'. copy_inv h0 ts (store_val h d i v) m \<Longrightarrow>
                 copy_loop n0 ts (store_val h d i v) m = (h', m') \<Longrightarrow>
                 copy_inv h0 [] h' m' \<and> set m \<subseteq> set m'"
            using "2.IH"(7) [OF Ref None False _ n0] by simp
        qed
      qed
    qed
  next
    case NoneV
    show ?thesis
    proof (rule plain)
      show "settled (length h0) m v" "rename m v = v"
        using NoneV by (simp_all add: settled_def rename_def)
      show "copy_loop n0 (Task d i v # ts) h m = copy_loop n0 ts (store_val h d i v) m"
        using NoneV by simp
      show "\<And>h' m'. copy_inv h0 ts (store_val h d i v) m \<Longrightarrow>
                 copy_loop n0 ts (store_val h d i v) m = (h', m') \<Longrightarrow>
                 copy_inv h0 [] h' m' \<and> set m \<subseteq> set m'"
        using "2.IH"(1) [OF NoneV _ n0] by simp
    qed
  next
    case (BoolV x)
    show ?thesis
    proof (rule plain)
      show "settled (length h0) m v" "rename m v = v"
        using BoolV by (simp_all add: settled_def rename_def)
      show "copy_loop n0 (Task d i v # ts) h m = copy_loop n0 ts (store_val h d i v) m"
        using BoolV by simp
      show "\<And>h' m'. copy_inv h0 ts (store_val h d i v) m \<Longrightarrow>
                 copy_loop n0 ts (store_val h d i v) m = (h', m') \<Longrightarrow>
                 copy_inv h0 [] h' m' \<and> set m \<subseteq> set m'"
        using "2.IH"(2) [OF BoolV _ n0] by simp
    qed
  next
    case (IntV x)
    show ?thesis
    proof (rule plain)
      show "settled (length h0) m v" "rename m v = v"
        using IntV by (simp_all add: settled_def rename_def)
      show "copy_loop n0 (Task d i v # ts) h m = copy_loop n0 ts (store_val h d i v) m"
        using IntV by simp
      show "\<And>h' m'. copy_inv h0 ts (store_val h d i v) m \<Longrightarrow>
                 copy_loop n0 ts (store_val h d i v) m = (h', m') \<Longrightarrow>
                 copy_inv h0 [] h' m' \<and> set m \<subseteq> set m'"
        using "2.IH"(3) [OF IntV _ n0] by simp
    qed
  next
    case (FloatV x)
    show ?thesis
    proof (rule plain)
      show "settled (length h0) m v" "rename m v = v"
        using FloatV by (simp_all add: settled_def rename_def)
      show "copy_loop n0 (Task d i v # ts) h m = copy_loop n0 ts (store_val h d i v) m"
        using FloatV by simp
      show "\<And>h' m'. copy_inv h0 ts (store_val h d i v) m \<Longrightarrow>
                 copy_loop n0 ts (store_val h d i v) m = (h', m') \<Longrightarrow>
                 copy_inv h0 [] h' m' \<and> set m \<subseteq> set m'"
        using "2.IH"(4) [OF FloatV _ n0] by simp
    qed
  next
    case (StrV x)
    show ?thesis
    proof (rule plain)
      show "settled (length h0) m v" "rename m v = v"
        using StrV by (simp_all add: settled_def rename_def)
      show "copy_loop n0 (Task d i v # ts) h m = copy_loop n0 ts (store_val h d i v) m"
        using StrV by simp
      show "\<And>h' m'. copy_inv h0 ts (store_val h d i v) m \<Longrightarrow>
                 copy_loop n0 ts (store_val h d i v) m = (h', m') \<Longrightarrow>
                 copy_inv h0 [] h' m' \<and> set m \<subseteq> set m'"
        using "2.IH"(5) [OF StrV _ n0] by simp
    qed
  qed
qed

section \<open>What a deep copy returns\<close>

fun map_obj :: "(val \<Rightarrow> val) \<Rightarrow> obj \<Rightarrow> obj" where
  "map_obj f (Tree kvs) = Tree (map (\<lambda>kv. (fst kv, f (snd kv))) kvs)"
| "map_obj f (Node t kvs) = Node t (map (\<lambda>kv. (fst kv, f (snd kv))) kvs)"
| "map_obj f (Seq vs) = Seq (map f vs)"

definition fresh_from :: "nat \<Rightarrow> heap \<Rightarrow> bool" where
  "fresh_from n h = (\<forall>a. n \<le> a \<and> a < length h \<longrightarrow> (\<forall>b. Ref b \<in> set (obj_vals (h ! a)) \<longrightarrow> n \<le> b))"

lemma pairs_eqI:
  "map fst xs = map fst ys \<Longrightarrow> map snd xs = map snd ys \<Longrightarrow> xs = ys"
  by (metis zip_map_fst_snd)

lemma blank_keys:
  assumes "map (\<lambda>kv. (fst kv, NoneV)) xs = map (\<lambda>kv. (fst kv, NoneV)) ys"
  shows "map fst xs = map fst ys"
proof -
  have "map fst (map (\<lambda>kv. (fst kv, NoneV)) xs) = map fst (map (\<lambda>kv. (fst kv, NoneV)) ys)"
    using assms by simp
  then show ?thesis by (simp add: comp_def)
qed

lemma obj_eq_map_objI:
  assumes "blank ob' = blank ob" and "obj_vals ob' = map f (obj_vals ob)"
  shows "ob' = map_obj f ob"
proof (cases ob)
  case (Tree kvs)
  with assms obtain kvs' where ob': "ob' = Tree kvs'" by (cases ob') auto
  with assms Tree have "map fst kvs' = map fst kvs" "map snd kvs' = map f (map snd kvs)"
    by (auto dest: blank_keys)
  then have "kvs' = map (\<lambda>kv. (fst kv, f (snd kv))) kvs"
    by (intro pairs_eqI) (simp_all add: comp_def)
  with Tree ob' show ?thesis by simp
next
  case (Node t kvs)
  with assms obtain kvs' where ob': "ob' = Node t kvs'" by (cases ob') auto
  with assms Node have "map fst kvs' = map fst kvs" "map snd kvs' = map f (map snd kvs)"
    by (auto dest: blank_keys)
  then have "kvs' = map (\<lambda>kv. (fst kv, f (snd kv))) kvs"
    by (intro pairs_eqI) (simp_all add: comp_def)
  with Node ob' show ?thesis by simp
next
  case (Seq vs)
  with assms show ?thesis by (cases ob') auto
qed

lemma copy_inv_empty: "copy_inv h [] h []"
  by (auto simp: copy_inv_def)

lemma copy_inv_init:
  "a < length h \<Longrightarrow>
   copy_inv h (tasks_for (length h) (h ! a)) (h @ [blank (h ! a)]) [(a, length h)]"
  using copy_inv_alloc [OF copy_inv_empty, of a h] by simp

lemma deepcopy_inv:
  assumes "a < length h" and "deepcopy h (Ref a) = (r, h')"
  shows "r = Ref (length h) \<and> (\<exists>m. copy_inv h [] h' m \<and> (a, length h) \<in> set m)"
proof -
  obtain h2 m2 where run: "copy_loop (length h) (tasks_for (length h) (h ! a))
      (h @ [blank (h ! a)]) [(a, length h)] = (h2, m2)"
    by (cases "copy_loop (length h) (tasks_for (length h) (h ! a))
      (h @ [blank (h ! a)]) [(a, length h)]") auto
  from copy_loop_inv [OF copy_inv_init [OF assms(1)] refl run]
  have "copy_inv h [] h2 m2" "(a, length h) \<in> set m2" by auto
  moreover from assms run have "r = Ref (length h)" "h' = h2"
    by (auto simp: deepcopy_def)
  ultimately show ?thesis by blast
qed

lemma copied_obj:
  assumes inv: "copy_inv h0 [] h' m" and mem: "(a, a') \<in> set m"
  shows "h' ! a' = map_obj (rename m) (h0 ! a)"
    and "a' < length h'" and "length h0 \<le> a'" and "a < length h0"
    and "\<forall>v \<in> set (obj_vals (h0 ! a)). settled (length h0) m v"
proof -
  from inv mem have bl: "blank (h' ! a') = blank (h0 ! a)"
    and sl: "\<And>i. i < length (obj_vals (h0 ! a)) \<Longrightarrow> slot_ok h0 [] h' m a a' i"
    and rng: "a' < length h'" "length h0 \<le> a'" "a < length h0"
    unfolding copy_inv_def by auto
  have len: "length (obj_vals (h' ! a')) = length (obj_vals (h0 ! a))"
    using bl by (rule blank_eq_length)
  have "obj_vals (h' ! a') = map (rename m) (obj_vals (h0 ! a))"
    using len sl by (intro nth_equalityI) (auto simp: slot_ok_def)
  with bl show "h' ! a' = map_obj (rename m) (h0 ! a)" by (rule obj_eq_map_objI)
  show "a' < length h'" "length h0 \<le> a'" "a < length h0" by fact+
  show "\<forall>v \<in> set (obj_vals (h0 ! a)). settled (length h0) m v"
    using sl by (auto simp: slot_ok_def in_set_conv_nth)
qed

lemma obj_vals_map_obj [simp]: "obj_vals (map_obj f ob) = map f (obj_vals ob)"
  by (cases ob) (simp_all add: comp_def)

lemma copy_inv_fresh:
  assumes inv: "copy_inv h0 [] h' m"
  shows "fresh_from (length h0) h'"
  unfolding fresh_from_def
proof (intro allI impI)
  fix a' b assume a': "length h0 \<le> a' \<and> a' < length h'" and b: "Ref b \<in> set (obj_vals (h' ! a'))"
  from inv a' obtain a where mem: "(a, a') \<in> set m"
    unfolding copy_inv_def by fastforce
  from b copied_obj(1) [OF inv mem] obtain v where v: "v \<in> set (obj_vals (h0 ! a))"
    and rn: "rename m v = Ref b" by auto
  from copied_obj(5) [OF inv mem] v have st: "settled (length h0) m v" by blast
  show "length h0 \<le> b"
  proof (cases v)
    case (Ref c)
    show ?thesis
    proof (cases "map_of m c")
      case None
      with Ref rn st show ?thesis by (auto simp: rename_def settled_def)
    next
      case (Some c')
      then have "(c, c') \<in> set m" by (rule map_of_SomeD)
      from copied_obj(3) [OF inv this] Ref Some rn show ?thesis
        by (simp add: rename_def)
    qed
  qed (use rn in \<open>auto simp: rename_def\<close>)
qed

lemma fresh_from_same: "fresh_from (length h) h"
  by (simp add: fresh_from_def)

lemma deepcopy_frame:
  assumes "deepcopy h x = (r, h')"
  shows "length h \<le> length h'" and "take (length h) h' = h"
    and "fresh_from (length h) h'" and "\<And>a. r = Ref a \<Longrightarrow> length h \<le> a"
proof -
  have "length h \<le> length h' \<and> take (length h) h' = h \<and> fresh_from (length h) h' \<and>
        (\<forall>a. r = Ref a \<longrightarrow> length h \<le> a)"
  proof (cases "\<exists>a. x = Ref a \<and> a < length h")
    case True
    then obtain a where x: "x = Ref a" and a: "a < length h" by blast
    from deepcopy_inv [OF a] assms x obtain m where r: "r = Ref (length h)"
      and inv: "copy_inv h [] h' m" by blast
    from inv have "length h \<le> length h'" "take (length h) h' = h"
      unfolding copy_inv_def by auto
    with r copy_inv_fresh [OF inv] show ?thesis by simp
  next
    case False
    with assms have "r = x" "h' = h"
      by (auto simp: deepcopy_def split: val.splits if_splits)
    with False show ?thesis by (auto simp: fresh_from_same not_less)
  qed
  then show "length h \<le> length h'" and "take (length h) h' = h"
    and "fresh_from (length h) h'" and "\<And>a. r = Ref a \<Longrightarrow> length h \<le> a"
    by auto
qed

section \<open>Statements that write only to new objects\<close>

definition newv :: "nat \<Rightarrow> val \<Rightarrow> bool" where
  "newv n v = (\<forall>a. v = Ref a \<longrightarrow> n \<le> a)"

definition pres :: "nat \<Rightarrow> ('a \<Rightarrow> bool) \<Rightarrow> (heap \<Rightarrow> (error + 'a) \<times> heap) \<Rightarrow> bool" where
  "pres n P f =
     (\<forall>h r h'. fresh_from n h \<and> n \<le> length h \<and> f h = (r, h') \<longrightarrow>
        fresh_from n h' \<and> n \<le> length h' \<and> take n h' = take n h \<and> (\<forall>y. r = Inr y \<longrightarrow> P y))"

lemma pres_andthen:
  assumes "pres n P m" and "\<And>x. P x \<Longrightarrow> pres n Q (f x)"
  shows "pres n Q (\<lambda>h. andthen (m h) f)"
  unfolding pres_def
proof (intro allI impI)
  fix h r h'
  assume a: "fresh_from n h \<and> n \<le> length h \<and> andthen (m h) f = (r, h')"
  obtain r1 h1 where m: "m h = (r1, h1)" by (cases "m h")
  with assms(1) a have 1: "fresh_from n h1" "n \<le> length h1" "take n h1 = take n h"
    "\<And>y. r1 = Inr y \<Longrightarrow> P y"
    unfolding pres_def by blast+
  show "fresh_from n h' \<and> n \<le> length h' \<and> take n h' = take n h \<and> (\<forall>y. r = Inr y \<longrightarrow> Q y)"
  proof (cases r1)
    case (Inl e)
    with a m 1 show ?thesis by (auto simp: andthen_def)
  next
    case (Inr x)
    with a m have "f x h1 = (r, h')" by (simp add: andthen_def)
    with assms(2) [OF 1(4) [OF Inr]] 1 show ?thesis
      unfolding pres_def by metis
  qed
qed

lemma pres_return: "P x \<Longrightarrow> pres n P (\<lambda>h. (Inr x, h))"
  by (simp add: pres_def)

lemma getitem_in_vals:
  "getitem h (Ref a) k = Inr y \<Longrightarrow> a < length h \<and> y \<in> set (obj_vals (h ! a))"
  by (auto simp: getitem_def split: if_splits obj.splits option.splits dest!: map_of_SomeD
      intro: rev_image_eqI)

lemma getitem_new:
  "fresh_from n h \<Longrightarrow> newv n x \<Longrightarrow> getitem h x k = Inr y \<Longrightarrow> newv n y"
proof -
  assume f: "fresh_from n h" and x: "newv n x" and g: "getitem h x k = Inr y"
  from g obtain a where xa: "x = Ref a" by (cases x) (auto simp: getitem_def)
  with g getitem_in_vals have "a < length h" "y \<in> set (obj_vals (h ! a))" by auto
  moreover from x xa have "n \<le> a" by (simp add: newv_def)
  ultimately show ?thesis using f by (auto simp: fresh_from_def newv_def)
qed

lemma lookup_path_new:
  "fresh_from n h \<Longrightarrow> newv n x \<Longrightarrow> lookup_path h x ks = Inr y \<Longrightarrow> newv n y"
proof (induction ks arbitrary: x)
  case Nil
  then show ?case by simp
next
  case (Cons k ks)
  then show ?case
    by (auto split: sum.splits dest: getitem_new)
qed

lemma set_vals_update:
  "set (map snd (AList.update k v kvs)) \<subseteq> insert v (set (map snd kvs))"
  by (induction kvs) auto

lemma setitem_new:
  assumes f: "fresh_from n h" and x: "newv n x" and v: "newv n v"
    and s: "setitem h x k v = Inr h'"
  shows "fresh_from n h' \<and> length h' = length h \<and> take n h' = take n h"
proof -
  from s obtain a where xa: "x = Ref a" by (cases x) (auto simp: setitem_def)
  with x have na: "n \<le> a" by (simp add: newv_def)
  from s xa have a: "a < length h" by (auto simp: setitem_def split: if_splits)
  have "\<exists>ob. h' = h[a := ob] \<and> set (obj_vals ob) \<subseteq> insert v (set (obj_vals (h ! a)))"
  proof (cases "h ! a")
    case (Tree kvs)
    with s xa a have "h' = h[a := Tree (AList.update (K k) v kvs)]"
      by (simp add: setitem_def)
    with Tree set_vals_update [of "K k" v kvs] show ?thesis
      by (intro exI [of _ "Tree (AList.update (K k) v kvs)"]) auto
  next
    case (Node t kvs)
    with s xa a have "h' = h[a := Node t (AList.update (K k) v kvs)]"
      by (simp add: setitem_def)
    with Node set_vals_update [of "K k" v kvs] show ?thesis
      by (intro exI [of _ "Node t (AList.update (K k) v kvs)"]) auto
  next
    case (Seq vs)
    with s xa a show ?thesis by (simp add: setitem_def)
  qed
  then obtain ob where h': "h' = h[a := ob]"
    and vals: "set (obj_vals ob) \<subseteq> insert v (set (obj_vals (h ! a)))"
    by blast
  have "fresh_from n h'"
    unfolding fresh_from_def
  proof (intro allI impI)
    fix a2 b assume a2: "n \<le> a2 \<and> a2 < length h'" and b: "Ref b \<in> set (obj_vals (h' ! a2))"
    show "n \<le> b"
    proof (cases "a2 = a")
      case True
      with b h' a vals have "Ref b = v \<or> Ref b \<in> set (obj_vals (h ! a))" by auto
      with v f na a show ?thesis by (auto simp: newv_def fresh_from_def)
    next
      case False
      with b h' a2 f show ?thesis by (auto simp: fresh_from_def)
    qed
  qed
  with h' na show ?thesis by simp
qed

lemma pres_assign:
  assumes "newv n x" and "newv n v"
  shows "pres n (\<lambda>_. True) (assign x ks k v)"
  unfolding pres_def
proof (intro allI impI)
  fix h r h'
  assume a: "fresh_from n h \<and> n \<le> length h \<and> assign x ks k v h = (r, h')"
  show "fresh_from n h' \<and> n \<le> length h' \<and> take n h' = take n h \<and> (\<forall>y. r = Inr y \<longrightarrow> True)"
  proof (cases "lookup_path h x ks")
    case (Inl e)
    with a show ?thesis by (auto simp: assign_def)
  next
    case (Inr y)
    with a assms have y: "newv n y" using lookup_path_new by blast
    show ?thesis
    proof (cases "setitem h y k v")
      case (Inl e)
      with a Inr show ?thesis by (auto simp: assign_def)
    next
      case (Inr h2)
      from setitem_new [OF _ y assms(2) Inr] a Inr \<open>lookup_path h x ks = Inr y\<close>
      show ?thesis by (auto simp: assign_def)
    qed
  qed
qed

lemma pres_get_path: "pres n (\<lambda>_. True) (get_path x ks)"
  by (simp add: pres_def get_path_def)

lemma pres_render: "pres n (\<lambda>_. True) (render str_of v)"
  by (simp add: pres_def render_def)

lemma fresh_from_append_scalars:
  assumes "fresh_from n h" and "\<forall>v \<in> set vs. \<forall>b. v \<noteq> Ref b"
  shows "fresh_from n (h @ [Seq vs])"
  using assms by (auto simp: fresh_from_def nth_append)

lemma pres_mask:
  assumes "newv n x" and "\<forall>v \<in> set vs. \<forall>b. v \<noteq> Ref b"
  shows "pres n (\<lambda>_. True) (\<lambda>h. case alloc (Seq vs) h of (l, h) \<Rightarrow> assign x ks k l h)"
  unfolding pres_def
proof (intro allI impI)
  fix h r h'
  assume a: "fresh_from n h \<and> n \<le> length h \<and>
    (case alloc (Seq vs) h of (l, h) \<Rightarrow> assign x ks k l h) = (r, h')"
  let ?h1 = "h @ [Seq vs]"
  from a have run: "assign x ks k (Ref (length h)) ?h1 = (r, h')" by (simp add: alloc_def)
  from a assms(2) have f1: "fresh_from n ?h1" by (simp add: fresh_from_append_scalars)
  from a have "newv n (Ref (length h))" by (simp add: newv_def)
  from pres_assign [OF assms(1) this, of ks k] f1 run a
  have "fresh_from n h' \<and> n \<le> length h' \<and> take n h' = take n ?h1"
    unfolding pres_def by (metis le_add1 length_append order_trans)
  with a show "fresh_from n h' \<and> n \<le> length h' \<and> take n h' = take n h \<and>
      (\<forall>y. r = Inr y \<longrightarrow> True)" by simp
qed

lemma pres_seq:
  assumes "pres n (\<lambda>_. True) m" and "\<And>x. pres n Q (f x)"
  shows "pres n Q (\<lambda>h. andthen (m h) f)"
  using assms by (intro pres_andthen [where P = "\<lambda>_. True"]) auto

lemma pres_if:
  assumes "c \<Longrightarrow> pres n P f" and "\<not> c \<Longrightarrow> pres n P g"
  shows "pres n P (\<lambda>h. if c then f h else g h)"
proof (cases c)
  case True
  then have "(\<lambda>h. if c then f h else g h) = f" by simp
  with assms(1) True show ?thesis by simp
next
  case False
  then have "(\<lambda>h. if c then f h else g h) = g" by simp
  with assms(2) False show ?thesis by simp
qed

lemma pres_overwrites:
  assumes x: "newv n x"
  shows "pres n (newv n) (small_config_overwrites str_of x nc)"
proof -
  have mask: "\<forall>v \<in> set (map (\<lambda>i. BoolV (if i \<ge> (2::nat) div 2 then True else False)) [0..<2]).
      \<forall>b. v \<noteq> Ref b" by auto
  have scalar: "newv n (StrV s)" "newv n (IntV i)" "newv n (BoolV b)" for s i b
    by (simp_all add: newv_def)
  show ?thesis
    unfolding small_config_overwrites_def Let_def
    by (intro pres_seq pres_if pres_assign pres_get_path pres_render pres_return
          pres_mask x mask scalar) simp
qed

lemma make_small_config_frame:
  assumes "make_small_config str_of b nc h = (r, h')"
  shows "length h \<le> length h'" and "take (length h) h' = h"
    and "fresh_from (length h) h'" and "\<And>s. r = Inr s \<Longrightarrow> newv (length h) s"
proof -
  obtain sc h1 where dc: "deepcopy h b = (sc, h1)" by (cases "deepcopy h b")
  note fr = deepcopy_frame [OF dc]
  from assms dc have run: "small_config_overwrites str_of sc nc h1 = (r, h')"
    by (simp add: make_small_config_def)
  have "newv (length h) sc" using fr(4) by (simp add: newv_def)
  from pres_overwrites [OF this, where nc = nc and str_of = str_of] fr run
  have "fresh_from (length h) h' \<and> length h \<le> length h' \<and>
        take (length h) h' = take (length h) h1 \<and> (\<forall>y. r = Inr y \<longrightarrow> newv (length h) y)"
    unfolding pres_def by blast
  with fr show "length h \<le> length h'" and "take (length h) h' = h"
    and "fresh_from (length h) h'" and "\<And>s. r = Inr s \<Longrightarrow> newv (length h) s"
    by auto
qed

section \<open>Reading after writing\<close>

definition is_dict :: "heap \<Rightarrow> val \<Rightarrow> bool" where
  "is_dict h x =
     (case x of
        Ref a \<Rightarrow> a < length h \<and> (case h ! a of Seq vs \<Rightarrow> False | _ \<Rightarrow> True)
      | _ \<Rightarrow> False)"

definition upd :: "heap \<Rightarrow> val \<Rightarrow> string \<Rightarrow> val \<Rightarrow> heap" where
  "upd h x k v =
     (case x of
        Ref a \<Rightarrow>
          h[a := (case h ! a of
                    Tree kvs \<Rightarrow> Tree (AList.update (K k) v kvs)
                  | Node t kvs \<Rightarrow> Node t (AList.update (K k) v kvs)
                  | Seq vs \<Rightarrow> Seq vs)]
      | _ \<Rightarrow> h)"

lemma setitem_upd:
  "setitem h x k v = (if is_dict h x then Inr (upd h x k v) else Inl TypeError)"
  by (auto simp: setitem_def is_dict_def upd_def split: val.splits obj.splits)

lemma assign_eq:
  "assign x ks k v h =
     (case lookup_path h x ks of
        Inl e \<Rightarrow> (Inl e, h)
      | Inr y \<Rightarrow> if is_dict h y then (Inr (), upd h y k v) else (Inl TypeError, h))"
  by (simp add: assign_def setitem_upd split: sum.splits)

lemma length_upd [simp]: "length (upd h x k v) = length h"
  by (simp add: upd_def split: val.splits)

lemma is_dict_upd [simp]: "is_dict (upd h x k v) y = is_dict h y"
proof (cases x)
  case (Ref a)
  show ?thesis
  proof (cases y)
    case (Ref b)
    then show ?thesis
      using \<open>x = Ref a\<close>
      by (cases "b = a"; cases "h ! a") (auto simp: is_dict_def upd_def)
  qed (simp_all add: is_dict_def)
qed (simp_all add: upd_def)

lemma getitem_upd:
  assumes "is_dict h x"
  shows "getitem (upd h x k v) y k2 = (if y = x \<and> k2 = k then Inr v else getitem h y k2)"
proof -
  from assms obtain a where x: "x = Ref a" and a: "a < length h"
    by (cases x) (auto simp: is_dict_def)
  show ?thesis
  proof (cases "y = x")
    case True
    with x a assms show ?thesis
      by (cases "h ! a")
        (auto simp: getitem_def upd_def is_dict_def update_conv' split: option.splits)
  next
    case False
    then show ?thesis
      using x by (cases y) (auto simp: getitem_def upd_def)
  qed
qed

lemma seq_items_upd:
  assumes "is_dict h x"
  shows "seq_items (upd h x k v) r = seq_items h r"
proof -
  from assms obtain a where x: "x = Ref a" and a: "a < length h"
    by (cases x) (auto simp: is_dict_def)
  have "seq_items (upd h x k v) (Inr (Ref b)) = seq_items h (Inr (Ref b))" for b
    using x a assms
    by (cases "b = a"; cases "h ! a") (auto simp: seq_items_def upd_def is_dict_def)
  then show ?thesis
    by (cases r) (auto simp: seq_items_def split: val.splits)
qed

lemma getitem_is_dict: "getitem h x k = Inr v \<Longrightarrow> is_dict h x"
  by (auto simp: getitem_def is_dict_def split: val.splits if_splits obj.splits)

lemma getitem_append: "is_dict h y \<Longrightarrow> getitem (h @ ext) y k = getitem h y k"
  by (auto simp: getitem_def is_dict_def nth_append split: val.splits)

lemma is_dict_append: "is_dict h y \<Longrightarrow> is_dict (h @ ext) y"
  by (auto simp: is_dict_def nth_append split: val.splits)

lemma seq_items_append_new:
  "length h = n \<Longrightarrow> seq_items (h @ [Seq vs]) (Inr (Ref n)) = Some vs"
  by (auto simp: seq_items_def)

lemma upt_0_2: "[0..<2] = [0, Suc 0]"
  by (simp add: numeral_2_eq_2)

lemma is_dict_not_new: "is_dict h x \<Longrightarrow> x \<noteq> Ref (length h)"
  by (auto simp: is_dict_def)

lemma overwrites_run:
  assumes job: "getitem h sc ''job'' = Inr j"
    and model: "getitem h sc ''model'' = Inr mo"
    and model_parallel: "getitem h sc ''model_parallel'' = Inr mp"
    and checkpoint: "getitem h sc ''checkpoint'' = Inr ck"
    and net: "getitem h mo ''net'' = Inr ne"
    and net_ctrl: "getitem h mo ''net_ctrl'' = Inr ncl"
    and base_load_from: "getitem h mo ''base_load_from'' = Inr bl"
    and name: "getitem h j ''name'' = Inr (StrV nm)"
    and dicts: "is_dict h j" "is_dict h ne" "is_dict h ncl" "is_dict h mp" "is_dict h ck"
      "is_dict h bl"
    and dist: "distinct [sc, j, mo, ne, ncl, mp, ck, bl]"
  shows "\<exists>h'. small_config_overwrites str_of sc nc h = (Inr sc, h') \<and>
     lookup_path h' sc [''job'', ''group''] = Inr (StrV ''debug'') \<and>
     lookup_path h' sc [''job'', ''name''] = Inr (StrV (nm @ ''_SMALL'')) \<and>
     lookup_path h' sc [''model'', ''net'', ''num_blocks''] = Inr (IntV 2) \<and>
     lookup_path h' sc [''model_parallel'', ''tensor_model_parallel_size''] = Inr (IntV 1) \<and>
     lookup_path h' sc [''model_parallel'', ''sequence_parallel''] = Inr (BoolV False) \<and>
     lookup_path h' sc [''checkpoint'', ''load_path''] = Inr (StrV []) \<and>
     lookup_path h' sc [''model'', ''base_load_from'', ''load_path''] = Inr (StrV []) \<and>
     (if nc then
        lookup_path h' sc [''model'', ''net_ctrl'', ''num_blocks''] = Inr (IntV 2) \<and>
        seq_items h' (lookup_path h' sc [''model'', ''net_ctrl'', ''layer_mask''])
          = Some [BoolV False, BoolV True]
      else
        (\<forall>k. lookup_path h' sc [''model'', ''net_ctrl'', k] = getitem h ncl k) \<and>
        (\<forall>r. seq_items h' r = seq_items h r))"
proof -
  note d0 = getitem_is_dict [OF job] getitem_is_dict [OF net]
  note neq = dicts [THEN is_dict_not_new] d0 [THEN is_dict_not_new]
  from dist have dist': "distinct (rev [sc, j, mo, ne, ncl, mp, ck, bl])"
    by (simp only: distinct_rev)
  show ?thesis
  proof (cases nc)
    case True
    show ?thesis
      using assms dist' d0 neq True
      by (simp add: small_config_overwrites_def assign_eq andthen_def get_path_def render_def
          py_str_def alloc_def getitem_upd seq_items_upd getitem_append is_dict_append
          seq_items_append_new upt_0_2)
  next
    case False
    show ?thesis
      using assms dist' d0 False
      by (simp add: small_config_overwrites_def assign_eq andthen_def get_path_def render_def
          py_str_def getitem_upd seq_items_upd split: sum.splits)
  qed
qed

section \<open>The tree that \<^verbatim>\<open>make_ctrlnet_config\<close> builds\<close>

lemma build_items_Const: "build_items (map (\<lambda>i. Const (f i)) xs) h = (map f xs, h)"
  by (induction xs) auto

definition layer_mask_of :: "int \<Rightarrow> val list" where
  "layer_mask_of ncb = map (\<lambda>i. BoolV (if int i \<ge> ncb then True else False)) [0..<num_blocks]"

lemma ctrlnet_layout:
  assumes "make_ctrlnet_config ck hk ncb p t2v nf h = (b, h1)"
  shows "b = Ref (length h + 36) \<and> length h1 = length h + 37 \<and> take (length h) h1 = h \<and>
    getitem h1 b ''job'' = Inr (Ref (length h + 12)) \<and>
    getitem h1 b ''checkpoint'' = Inr (Ref (length h + 16)) \<and>
    getitem h1 b ''model_parallel'' = Inr (Ref (length h + 20)) \<and>
    getitem h1 b ''model'' = Inr (Ref (length h + 30)) \<and>
    getitem h1 (Ref (length h + 30)) ''net'' = Inr (Ref (length h + 26)) \<and>
    getitem h1 (Ref (length h + 30)) ''net_ctrl'' = Inr (Ref (length h + 28)) \<and>
    getitem h1 (Ref (length h + 30)) ''base_load_from'' = Inr (Ref (length h + 22)) \<and>
    getitem h1 (Ref (length h + 30)) ''latent_shape'' = Inr (Ref (length h + 21)) \<and>
    getitem h1 (Ref (length h + 28)) ''layer_mask'' = Inr (Ref (length h + 27)) \<and>
    getitem h1 (Ref (length h + 28)) ''num_blocks'' = Inr (IntV (int num_blocks)) \<and>
    getitem h1 (Ref (length h + 26)) ''num_blocks'' = Inr (IntV (int num_blocks)) \<and>
    getitem h1 (Ref (length h + 12)) ''name'' = Inr (StrV (job_name_of hk ncb p t2v nf)) \<and>
    getitem h1 (Ref (length h + 12)) ''project'' = Inr (StrV (job_project_of p t2v)) \<and>
    getitem h1 (Ref (length h + 12)) ''group'' = Inr (StrV ''CTRL_7Bv1_sampleAV'') \<and>
    getitem h1 (Ref (length h + 16)) ''load_path'' = Inr (StrV p) \<and>
    seq_items h1 (Inr (Ref (length h + 27))) = Some (layer_mask_of ncb) \<and>
    seq_items h1 (Inr (Ref (length h + 21))) =
      Some [IntV 16, IntV ((nf - 1) div 8 + 1), IntV 88, IntV 160] \<and>
    is_dict h1 (Ref (length h + 12)) \<and> is_dict h1 (Ref (length h + 16)) \<and>
    is_dict h1 (Ref (length h + 20)) \<and> is_dict h1 (Ref (length h + 22)) \<and>
    is_dict h1 (Ref (length h + 26)) \<and> is_dict h1 (Ref (length h + 28))"
  using assms
  apply (simp add: make_ctrlnet_config_def example_multiview_dataset_waymo_def ctrl_config_def
      alloc_def build_items_Const)
  apply (elim conjE, hypsubst)
  apply (simp add: getitem_def seq_items_def is_dict_def nth_append layer_mask_of_def)
  done

section \<open>The copy of a built tree\<close>

lemma map_of_map_vals:
  "map_of (map (\<lambda>kv. (fst kv, f (snd kv))) kvs) k = map_option f (map_of kvs k)"
  by (induction kvs) auto

lemma copy_getitem:
  assumes inv: "copy_inv h1 [] h2 m" and mem: "(a, a') \<in> set m"
  shows "getitem h2 (Ref a') k = map_sum id (rename m) (getitem h1 (Ref a) k)"
proof -
  note ob = copied_obj [OF inv mem]
  show ?thesis
    using ob(1,2,4)
    by (cases "h1 ! a")
      (auto simp: getitem_def map_of_map_vals split: option.splits)
qed

lemma copy_child:
  assumes inv: "copy_inv h1 [] h2 m" and mem: "(a, a') \<in> set m"
    and get: "getitem h1 (Ref a) k = Inr (Ref b)" and b: "b < length h1"
  shows "\<exists>b'. (b, b') \<in> set m \<and> getitem h2 (Ref a') k = Inr (Ref b')"
proof -
  from getitem_in_vals [OF get] have "Ref b \<in> set (obj_vals (h1 ! a))" by simp
  with copied_obj(5) [OF inv mem] have "settled (length h1) m (Ref b)" by blast
  with b obtain b' where b': "map_of m b = Some b'" by (auto simp: settled_def)
  then have "(b, b') \<in> set m" by (rule map_of_SomeD)
  moreover have "getitem h2 (Ref a') k = Inr (Ref b')"
    using copy_getitem [OF inv mem, of k] get b' by (simp add: rename_def)
  ultimately show ?thesis by blast
qed

lemma copy_scalar:
  assumes inv: "copy_inv h1 [] h2 m" and mem: "(a, a') \<in> set m"
    and get: "getitem h1 (Ref a) k = Inr v" and v: "\<And>b. v \<noteq> Ref b"
  shows "getitem h2 (Ref a') k = Inr v"
  using copy_getitem [OF inv mem, of k] get v by (cases v) (auto simp: rename_def)

lemma copy_is_dict:
  assumes inv: "copy_inv h1 [] h2 m" and mem: "(a, a') \<in> set m"
  shows "is_dict h2 (Ref a') = is_dict h1 (Ref a)"
  using copied_obj(1,2,4) [OF inv mem]
  by (cases "h1 ! a") (auto simp: is_dict_def)

lemma copy_seq_items:
  assumes inv: "copy_inv h1 [] h2 m" and mem: "(a, a') \<in> set m"
  shows "seq_items h2 (Inr (Ref a')) = map_option (map (rename m)) (seq_items h1 (Inr (Ref a)))"
  using copied_obj(1,2,4) [OF inv mem]
  by (cases "h1 ! a") (auto simp: seq_items_def)

lemma copy_distinct:
  assumes inv: "copy_inv h1 [] h2 m" and "(a, a') \<in> set m" and "(b, b') \<in> set m"
    and "a \<noteq> b"
  shows "a' \<noteq> b'"
proof
  assume eq: "a' = b'"
  from inv have d: "distinct (map snd m)" unfolding copy_inv_def by simp
  from assms(3) eq have "(b, a') \<in> set m" by simp
  from distinct_snd_unique [OF d assms(2) this] have "b = a" .
  with assms(4) show False by simp
qed

lemma rename_layer_mask: "map (rename m) (layer_mask_of ncb) = layer_mask_of ncb"
  by (simp add: layer_mask_of_def rename_def)

lemma small_of_ctrlnet:
  assumes build: "make_ctrlnet_config ck hk ncb p t2v nf h = (b, h1)"
    and run: "make_small_config str_of b nc h1 = (r, h3)"
  shows "\<exists>s. r = Inr s \<and>
     lookup_path h3 s [''job'', ''group''] = Inr (StrV ''debug'') \<and>
     lookup_path h3 s [''job'', ''name''] = Inr (StrV (job_name_of hk ncb p t2v nf @ ''_SMALL'')) \<and>
     lookup_path h3 s [''model'', ''net'', ''num_blocks''] = Inr (IntV 2) \<and>
     lookup_path h3 s [''model_parallel'', ''tensor_model_parallel_size''] = Inr (IntV 1) \<and>
     lookup_path h3 s [''model_parallel'', ''sequence_parallel''] = Inr (BoolV False) \<and>
     lookup_path h3 s [''checkpoint'', ''load_path''] = Inr (StrV []) \<and>
     lookup_path h3 s [''model'', ''base_load_from'', ''load_path''] = Inr (StrV []) \<and>
     (if nc then
        lookup_path h3 s [''model'', ''net_ctrl'', ''num_blocks''] = Inr (IntV 2) \<and>
        seq_items h3 (lookup_path h3 s [''model'', ''net_ctrl'', ''layer_mask''])
          = Some [BoolV False, BoolV True]
      else
        lookup_path h3 s [''model'', ''net_ctrl'', ''num_blocks''] = Inr (IntV (int num_blocks)) \<and>
        seq_items h3 (lookup_path h3 s [''model'', ''net_ctrl'', ''layer_mask''])
          = Some (layer_mask_of ncb))"
proof -
  let ?n = "length h"
  note L = ctrlnet_layout [OF build]
  from L have b: "b = Ref (?n + 36)" and len1: "length h1 = ?n + 37" by auto
  obtain sc h2 where dc: "deepcopy h1 b = (sc, h2)" by (cases "deepcopy h1 b")
  from deepcopy_inv [of "?n + 36" h1 sc h2] dc b len1
  obtain m where sc: "sc = Ref (length h1)" and inv: "copy_inv h1 [] h2 m"
    and root: "(?n + 36, length h1) \<in> set m"
    by auto
  note child = copy_child [OF inv]
  from child [OF root, of "''job''" "?n + 12"] L b len1
  obtain j where j: "(?n + 12, j) \<in> set m" "getitem h2 sc ''job'' = Inr (Ref j)"
    using sc by auto
  from child [OF root, of "''checkpoint''" "?n + 16"] L b len1
  obtain c where c: "(?n + 16, c) \<in> set m" "getitem h2 sc ''checkpoint'' = Inr (Ref c)"
    using sc by auto
  from child [OF root, of "''model_parallel''" "?n + 20"] L b len1
  obtain mp where mp: "(?n + 20, mp) \<in> set m" "getitem h2 sc ''model_parallel'' = Inr (Ref mp)"
    using sc by auto
  from child [OF root, of "''model''" "?n + 30"] L b len1
  obtain mo where mo: "(?n + 30, mo) \<in> set m" "getitem h2 sc ''model'' = Inr (Ref mo)"
    using sc by auto
  from child [OF mo(1), of "''net''" "?n + 26"] L len1
  obtain ne where ne: "(?n + 26, ne) \<in> set m" "getitem h2 (Ref mo) ''net'' = Inr (Ref ne)"
    by auto
  from child [OF mo(1), of "''net_ctrl''" "?n + 28"] L len1
  obtain ncl where ncl: "(?n + 28, ncl) \<in> set m"
    "getitem h2 (Ref mo) ''net_ctrl'' = Inr (Ref ncl)"
    by auto
  from child [OF mo(1), of "''base_load_from''" "?n + 22"] L len1
  obtain bl where bl: "(?n + 22, bl) \<in> set m"
    "getitem h2 (Ref mo) ''base_load_from'' = Inr (Ref bl)"
    by auto
  from child [OF ncl(1), of "''layer_mask''" "?n + 27"] L len1
  obtain lm where lm: "(?n + 27, lm) \<in> set m"
    "getitem h2 (Ref ncl) ''layer_mask'' = Inr (Ref lm)"
    by auto
  have name: "getitem h2 (Ref j) ''name'' = Inr (StrV (job_name_of hk ncb p t2v nf))"
    using copy_scalar [OF inv j(1), of "''name''"] L by simp
  have nblocks: "getitem h2 (Ref ncl) ''num_blocks'' = Inr (IntV (int num_blocks))"
    using copy_scalar [OF inv ncl(1), of "''num_blocks''"] L by simp
  have mask: "seq_items h2 (Inr (Ref lm)) = Some (layer_mask_of ncb)"
    using copy_seq_items [OF inv lm(1)] L by (simp add: rename_layer_mask)
  have dicts: "is_dict h2 (Ref j)" "is_dict h2 (Ref ne)" "is_dict h2 (Ref ncl)"
    "is_dict h2 (Ref mp)" "is_dict h2 (Ref c)" "is_dict h2 (Ref bl)"
    using copy_is_dict [OF inv j(1)] copy_is_dict [OF inv ne(1)] copy_is_dict [OF inv ncl(1)]
      copy_is_dict [OF inv mp(1)] copy_is_dict [OF inv c(1)] copy_is_dict [OF inv bl(1)] L
    by simp_all
  note cd = copy_distinct [OF inv]
  have dist: "distinct [sc, Ref j, Ref mo, Ref ne, Ref ncl, Ref mp, Ref c, Ref bl]"
    using cd [OF root j(1)] cd [OF root mo(1)] cd [OF root ne(1)] cd [OF root ncl(1)]
      cd [OF root mp(1)] cd [OF root c(1)] cd [OF root bl(1)]
      cd [OF j(1) mo(1)] cd [OF j(1) ne(1)] cd [OF j(1) ncl(1)] cd [OF j(1) mp(1)]
      cd [OF j(1) c(1)] cd [OF j(1) bl(1)]
      cd [OF mo(1) ne(1)] cd [OF mo(1) ncl(1)] cd [OF mo(1) mp(1)] cd [OF mo(1) c(1)]
      cd [OF mo(1) bl(1)]
      cd [OF ne(1) ncl(1)] cd [OF ne(1) mp(1)] cd [OF ne(1) c(1)] cd [OF ne(1) bl(1)]
      cd [OF ncl(1) mp(1)] cd [OF ncl(1) c(1)] cd [OF ncl(1) bl(1)]
      cd [OF mp(1) c(1)] cd [OF mp(1) bl(1)] cd [OF c(1) bl(1)]
    by (simp add: sc)
  from overwrites_run [OF j(2) mo(2) mp(2) c(2) ne(2) ncl(2) bl(2) name dicts dist,
      where nc = nc and str_of = str_of]
  obtain h' where ow: "small_config_overwrites str_of sc nc h2 = (Inr sc, h')"
    and facts: "lookup_path h' sc [''job'', ''group''] = Inr (StrV ''debug'')"
      "lookup_path h' sc [''job'', ''name'']
         = Inr (StrV (job_name_of hk ncb p t2v nf @ ''_SMALL''))"
      "lookup_path h' sc [''model'', ''net'', ''num_blocks''] = Inr (IntV 2)"
      "lookup_path h' sc [''model_parallel'', ''tensor_model_parallel_size''] = Inr (IntV 1)"
      "lookup_path h' sc [''model_parallel'', ''sequence_parallel''] = Inr (BoolV False)"
      "lookup_path h' sc [''checkpoint'', ''load_path''] = Inr (StrV [])"
      "lookup_path h' sc [''model'', ''base_load_from'', ''load_path''] = Inr (StrV [])"
    and rest: "if nc then
        lookup_path h' sc [''model'', ''net_ctrl'', ''num_blocks''] = Inr (IntV 2) \<and>
        seq_items h' (lookup_path h' sc [''model'', ''net_ctrl'', ''layer_mask''])
          = Some [BoolV False, BoolV True]
      else
        (\<forall>k. lookup_path h' sc [''model'', ''net_ctrl'', k] = getitem h2 (Ref ncl) k) \<and>
        (\<forall>r. seq_items h' r = seq_items h2 r)"
    by blast
  from run dc ow have r: "r = Inr sc" "h3 = h'"
    by (simp_all add: make_small_config_def)
  show ?thesis
  proof (cases nc)
    case True
    with r facts rest show ?thesis by simp
  next
    case False
    with rest have "lookup_path h' sc [''model'', ''net_ctrl'', ''num_blocks'']
          = Inr (IntV (int num_blocks))"
      and "seq_items h' (lookup_path h' sc [''model'', ''net_ctrl'', ''layer_mask''])
          = Some (layer_mask_of ncb)"
      using nblocks lm(2) mask by simp_all
    with False r facts show ?thesis by simp
  qed
qed

section \<open>One pass of the generation loop\<close>

lemma ctrlnet_paths:
  assumes build: "make_ctrlnet_config ck hk ncb p t2v nf h = (b, h1)"
  shows "lookup_path h1 b [''job'', ''name''] = Inr (StrV (job_name_of hk ncb p t2v nf))"
    and "lookup_path h1 b [''job'', ''project''] = Inr (StrV (job_project_of p t2v))"
    and "lookup_path h1 b [''job'', ''group''] = Inr (StrV ''CTRL_7Bv1_sampleAV'')"
    and "lookup_path h1 b [''checkpoint'', ''load_path''] = Inr (StrV p)"
    and "lookup_path h1 b [''model'', ''net'', ''num_blocks''] = Inr (IntV (int num_blocks))"
    and "lookup_path h1 b [''model'', ''net_ctrl'', ''num_blocks'']
           = Inr (IntV (int num_blocks))"
    and "seq_items h1 (lookup_path h1 b [''model'', ''latent_shape''])
           = Some [IntV 16, IntV ((nf - 1) div 8 + 1), IntV 88, IntV 160]"
    and "seq_items h1 (lookup_path h1 b [''model'', ''net_ctrl'', ''layer_mask''])
           = Some (layer_mask_of ncb)"
proof -
  let ?n = "length h"
  note L = ctrlnet_layout [OF build]
  from L have job: "getitem h1 b ''job'' = Inr (Ref (?n + 12))"
    and ckpt: "getitem h1 b ''checkpoint'' = Inr (Ref (?n + 16))"
    and model: "getitem h1 b ''model'' = Inr (Ref (?n + 30))"
    and net: "getitem h1 (Ref (?n + 30)) ''net'' = Inr (Ref (?n + 26))"
    and net_ctrl: "getitem h1 (Ref (?n + 30)) ''net_ctrl'' = Inr (Ref (?n + 28))"
    and shape: "getitem h1 (Ref (?n + 30)) ''latent_shape'' = Inr (Ref (?n + 21))"
    and mask: "getitem h1 (Ref (?n + 28)) ''layer_mask'' = Inr (Ref (?n + 27))"
    by blast+
  from L have vals: "getitem h1 (Ref (?n + 12)) ''name'' = Inr (StrV (job_name_of hk ncb p t2v nf))"
    "getitem h1 (Ref (?n + 12)) ''project'' = Inr (StrV (job_project_of p t2v))"
    "getitem h1 (Ref (?n + 12)) ''group'' = Inr (StrV ''CTRL_7Bv1_sampleAV'')"
    "getitem h1 (Ref (?n + 16)) ''load_path'' = Inr (StrV p)"
    "getitem h1 (Ref (?n + 26)) ''num_blocks'' = Inr (IntV (int num_blocks))"
    "getitem h1 (Ref (?n + 28)) ''num_blocks'' = Inr (IntV (int num_blocks))"
    "seq_items h1 (Inr (Ref (?n + 21)))
       = Some [IntV 16, IntV ((nf - 1) div 8 + 1), IntV 88, IntV 160]"
    "seq_items h1 (Inr (Ref (?n + 27))) = Some (layer_mask_of ncb)"
    by blast+
  show "lookup_path h1 b [''job'', ''name''] = Inr (StrV (job_name_of hk ncb p t2v nf))"
    and "lookup_path h1 b [''job'', ''project''] = Inr (StrV (job_project_of p t2v))"
    and "lookup_path h1 b [''job'', ''group''] = Inr (StrV ''CTRL_7Bv1_sampleAV'')"
    and "lookup_path h1 b [''checkpoint'', ''load_path''] = Inr (StrV p)"
    and "lookup_path h1 b [''model'', ''net'', ''num_blocks''] = Inr (IntV (int num_blocks))"
    and "lookup_path h1 b [''model'', ''net_ctrl'', ''num_blocks'']
           = Inr (IntV (int num_blocks))"
    and "seq_items h1 (lookup_path h1 b [''model'', ''latent_shape''])
           = Some [IntV 16, IntV ((nf - 1) div 8 + 1), IntV 88, IntV 160]"
    and "seq_items h1 (lookup_path h1 b [''model'', ''net_ctrl'', ''layer_mask''])
           = Some (layer_mask_of ncb)"
    by (simp_all add: job ckpt model net net_ctrl shape mask vals)
qed

lemma getitem_extend:
  assumes "getitem h x k = Inr v" and "take (length h) h' = h"
  shows "getitem h' x k = Inr v"
proof -
  from assms(1) obtain a where x: "x = Ref a" and a: "a < length h"
    by (cases x) (auto simp: getitem_def split: if_splits)
  from assms(2) have "length h \<le> length h'"
    by (metis length_take min.cobounded1)
  moreover from assms(2) a have "h' ! a = h ! a" by (metis nth_take)
  ultimately show ?thesis using assms(1) x a by (simp add: getitem_def)
qed

lemma lookup_path_extend:
  "lookup_path h x ks = Inr v \<Longrightarrow> take (length h) h' = h \<Longrightarrow> lookup_path h' x ks = Inr v"
proof (induction ks arbitrary: x)
  case Nil
  then show ?case by simp
next
  case (Cons k ks)
  then obtain y where y: "getitem h x k = Inr y" and rest: "lookup_path h y ks = Inr v"
    by (auto split: sum.splits)
  from getitem_extend [OF y Cons.prems(2)] Cons.IH [OF rest Cons.prems(2)]
  show ?case by simp
qed

lemma join_step_nonempty: "y \<noteq> [] \<Longrightarrow> join_step y b \<noteq> []"
  by (auto simp: join_step_def)

lemma tp_path_nonempty: "path_join a [d, ''checkpoints_tp'', b] \<noteq> []"
proof -
  have "join_step (join_step a d) ''checkpoints_tp'' \<noteq> []"
    by (simp add: join_step_def)
  then show ?thesis
    by (simp add: path_join_def join_step_nonempty)
qed

lemma short_keys:
  "replace ''control_input_hdmap'' ''control_input_'' [] = ''hdmap''"
  "replace ''control_input_lidar'' ''control_input_'' [] = ''lidar''"
  by (simp_all add: replace.simps)

lemma tp_ckpt_path_keys:
  assumes "key \<in> set all_hint_key"
  shows "\<exists>entry. map_of (mv_model_names ck) (drop (length ''control_input_'') key) = Some entry \<and>
     tp_ckpt_path ck key h =
       (Inr (path_join ckpt_root [dirname entry, ''checkpoints_tp'', basename entry]), h)"
  using assms
  by (auto simp: all_hint_key_def tp_ckpt_path_def short_keys mv_model_names_def)

lemma job_name_posttrain:
  "p \<noteq> [] \<Longrightarrow> job_name_of hk ncb p True nf =
     ''CTRL_7Bv1pt3_t2v_sv2mv_'' @ str_int nf @ ''frames_'' @ hk
       @ ''_block'' @ str_int ncb @ ''_posttrain''"
  by (simp add: job_name_of_def)

lemma job_name_pretrain:
  "job_name_of hk ncb [] True nf =
     ''CTRL_7Bv1pt3_t2v_sv2mv_'' @ str_int nf @ ''frames_'' @ hk
       @ ''_block'' @ str_int ncb @ ''_pretrain''"
  by (simp add: job_name_of_def)

definition mk_entry :: "string \<Rightarrow> val \<Rightarrow> entry" where
  "mk_entry n t =
     \<lparr>entry_group = ''experiment'', entry_package = ''_global_'', entry_name = StrV n,
      entry_node = t\<rparr>"

lemma loop_body_run:
  assumes key: "key \<in> set all_hint_key"
  shows "\<exists>t2v_config h1 debug_config h2 entry config h3.
     make_ctrlnet_config ck key num_control_blocks [] True nf h = (t2v_config, h1) \<and>
     make_small_config str_of t2v_config True h1 = (Inr debug_config, h2) \<and>
     map_of (mv_model_names ck) (drop (length ''control_input_'') key) = Some entry \<and>
     make_ctrlnet_config ck key num_control_blocks
       (path_join ckpt_root [dirname entry, ''checkpoints_tp'', basename entry]) True nf h2
       = (config, h3) \<and>
     loop_body str_of ck key nf cs h =
       (Inr (cs @
          [mk_entry (job_name_of key num_control_blocks [] True nf) t2v_config,
           mk_entry (job_name_of key num_control_blocks [] True nf @ ''_SMALL'') debug_config,
           mk_entry (job_name_of key num_control_blocks ''x'' True nf) config]), h3)"
proof -
  obtain t2v_config h1 where b1: "make_ctrlnet_config ck key num_control_blocks [] True nf h
      = (t2v_config, h1)"
    by (cases "make_ctrlnet_config ck key num_control_blocks [] True nf h")
  obtain r h2 where s: "make_small_config str_of t2v_config True h1 = (r, h2)"
    by (cases "make_small_config str_of t2v_config True h1")
  from small_of_ctrlnet [OF b1 s] obtain debug_config where r: "r = Inr debug_config"
    and n2: "lookup_path h2 debug_config [''job'', ''name'']
       = Inr (StrV (job_name_of key num_control_blocks [] True nf @ ''_SMALL''))"
    by auto
  note n1 = ctrlnet_paths(1) [OF b1]
  from make_small_config_frame(2) [OF s] have fr: "take (length h1) h2 = h1" .
  note n1' = lookup_path_extend [OF n1 fr]
  from tp_ckpt_path_keys [OF key, of ck h2] obtain entry
    where e: "map_of (mv_model_names ck) (drop (length ''control_input_'') key) = Some entry"
      and tp: "tp_ckpt_path ck key h2 =
        (Inr (path_join ckpt_root [dirname entry, ''checkpoints_tp'', basename entry]), h2)"
    by blast
  let ?p = "path_join ckpt_root [dirname entry, ''checkpoints_tp'', basename entry]"
  obtain config h3 where b3: "make_ctrlnet_config ck key num_control_blocks ?p True nf h2
      = (config, h3)"
    by (cases "make_ctrlnet_config ck key num_control_blocks ?p True nf h2")
  from ctrlnet_paths(1) [OF b3]
  have n3: "lookup_path h3 config [''job'', ''name'']
       = Inr (StrV (job_name_of key num_control_blocks ''x'' True nf))"
    using tp_path_nonempty [of ckpt_root "dirname entry" "basename entry"]
    by (simp add: job_name_posttrain)
  have "loop_body str_of ck key nf cs h =
       (Inr (cs @
          [mk_entry (job_name_of key num_control_blocks [] True nf) t2v_config,
           mk_entry (job_name_of key num_control_blocks [] True nf @ ''_SMALL'') debug_config,
           mk_entry (job_name_of key num_control_blocks ''x'' True nf) config]), h3)"
    using b1 s r n1' n2 tp b3 n3
    by (simp add: loop_body_def andthen_def get_path_def store_def mk_entry_def)
  with b1 s r e b3 show ?thesis by blast
qed

section \<open>The whole generation loop\<close>

inductive reach :: "heap \<Rightarrow> val \<Rightarrow> addr \<Rightarrow> bool" for h :: heap where
  reach_root: "reach h (Ref a) a"
| reach_step: "reach h x a \<Longrightarrow> a < length h \<Longrightarrow> Ref b \<in> set (obj_vals (h ! a)) \<Longrightarrow> reach h x b"

definition example_checkpoints :: checkpoints where
  "example_checkpoints =
     \<lparr>SV2MV_t2v_BASE_CHECKPOINT_AV_SAMPLE_PATH_dbg =
        ''nvidia/Cosmos-Transfer1-7B-Sample-AV-Single2MultiView/t2w_base_model.pt'',
      SV2MV_t2v_HDMAP2WORLD_CONTROLNET_7B_CHECKPOINT_PATH_dbg =
        ''nvidia/Cosmos-Transfer1-7B-Sample-AV-Single2MultiView/t2w_hdmap_control.pt'',
      SV2MV_t2v_LIDAR2WORLD_CONTROLNET_7B_CHECKPOINT_PATH_dbg =
        ''nvidia/Cosmos-Transfer1-7B-Sample-AV-Single2MultiView/t2w_lidar_control.pt''\<rparr>"

text \<open>A rendering of floats and containers, for the closed instances below.\<close>

definition example_str_of :: "heap \<Rightarrow> val \<Rightarrow> string" where
  "example_str_of h v = ''<object>''"

lemma reach_fresh:
  "reach h x a \<Longrightarrow> fresh_from n h \<Longrightarrow> newv n x \<Longrightarrow> n \<le> a"
proof (induction rule: reach.induct)
  case (reach_root a)
  then show ?case by (simp add: newv_def)
next
  case (reach_step x a b)
  then show ?case by (auto simp: fresh_from_def)
qed

lemma setitem_above:
  assumes "setitem h (Ref a) k v = Inr h'" and "n \<le> a"
  shows "take n h' = take n h"
  using assms by (auto simp: setitem_def split: if_splits obj.splits)

lemma str_int_57: "str_int 57 = ''57''"
  by (simp add: str_int_def str_nat.simps)

lemma str_int_121: "str_int 121 = ''121''"
  by (simp add: str_int_def str_nat.simps)

lemma str_int_3: "str_int 3 = ''3''"
  by (simp add: str_int_def str_nat.simps)

lemma generation_loop_run:
  "\<exists>t1 d1 c1 t2 d2 c2 t3 d3 c3 t4 d4 c4 h'.
     generation_loop str_of ck cs h =
       (Inr (cs @
          [mk_entry (job_name_of ''control_input_hdmap'' 3 [] True 57) t1,
           mk_entry (job_name_of ''control_input_hdmap'' 3 [] True 57 @ ''_SMALL'') d1,
           mk_entry (job_name_of ''control_input_hdmap'' 3 ''x'' True 57) c1,
           mk_entry (job_name_of ''control_input_hdmap'' 3 [] True 121) t2,
           mk_entry (job_name_of ''control_input_hdmap'' 3 [] True 121 @ ''_SMALL'') d2,
           mk_entry (job_name_of ''control_input_hdmap'' 3 ''x'' True 121) c2,
           mk_entry (job_name_of ''control_input_lidar'' 3 [] True 57) t3,
           mk_entry (job_name_of ''control_input_lidar'' 3 [] True 57 @ ''_SMALL'') d3,
           mk_entry (job_name_of ''control_input_lidar'' 3 ''x'' True 57) c3,
           mk_entry (job_name_of ''control_input_lidar'' 3 [] True 121) t4,
           mk_entry (job_name_of ''control_input_lidar'' 3 [] True 121 @ ''_SMALL'') d4,
           mk_entry (job_name_of ''control_input_lidar'' 3 ''x'' True 121) c4]), h')"
proof -
  have k1: "''control_input_hdmap'' \<in> set all_hint_key"
    and k2: "''control_input_lidar'' \<in> set all_hint_key"
    by (simp_all add: all_hint_key_def)
  from loop_body_run [OF k1, where str_of = str_of and ck = ck and nf = 57 and h = h
      and cs = cs] obtain t1 d1 c1 h1 where
    1: "loop_body str_of ck ''control_input_hdmap'' 57 cs h =
       (Inr (cs @
          [mk_entry (job_name_of ''control_input_hdmap'' 3 [] True 57) t1,
           mk_entry (job_name_of ''control_input_hdmap'' 3 [] True 57 @ ''_SMALL'') d1,
           mk_entry (job_name_of ''control_input_hdmap'' 3 ''x'' True 57) c1]), h1)"
    unfolding num_control_blocks_def by blast
  let ?cs1 = "cs @
          [mk_entry (job_name_of ''control_input_hdmap'' 3 [] True 57) t1,
           mk_entry (job_name_of ''control_input_hdmap'' 3 [] True 57 @ ''_SMALL'') d1,
           mk_entry (job_name_of ''control_input_hdmap'' 3 ''x'' True 57) c1]"
  from loop_body_run [OF k1, where str_of = str_of and ck = ck and nf = 121 and h = h1
      and cs = ?cs1] obtain t2 d2 c2 h2 where
    2: "loop_body str_of ck ''control_input_hdmap'' 121 ?cs1 h1 =
       (Inr (?cs1 @
          [mk_entry (job_name_of ''control_input_hdmap'' 3 [] True 121) t2,
           mk_entry (job_name_of ''control_input_hdmap'' 3 [] True 121 @ ''_SMALL'') d2,
           mk_entry (job_name_of ''control_input_hdmap'' 3 ''x'' True 121) c2]), h2)"
    unfolding num_control_blocks_def by blast
  let ?cs2 = "?cs1 @
          [mk_entry (job_name_of ''control_input_hdmap'' 3 [] True 121) t2,
           mk_entry (job_name_of ''control_input_hdmap'' 3 [] True 121 @ ''_SMALL'') d2,
           mk_entry (job_name_of ''control_input_hdmap'' 3 ''x'' True 121) c2]"
  from loop_body_run [OF k2, where str_of = str_of and ck = ck and nf = 57 and h = h2
      and cs = ?cs2] obtain t3 d3 c3 h3 where
    3: "loop_body str_of ck ''control_input_lidar'' 57 ?cs2 h2 =
       (Inr (?cs2 @
          [mk_entry (job_name_of ''control_input_lidar'' 3 [] True 57) t3,
           mk_entry (job_name_of ''control_input_lidar'' 3 [] True 57 @ ''_SMALL'') d3,
           mk_entry (job_name_of ''control_input_lidar'' 3 ''x'' True 57) c3]), h3)"
    unfolding num_control_blocks_def by blast
  let ?cs3 = "?cs2 @
          [mk_entry (job_name_of ''control_input_lidar'' 3 [] True 57) t3,
           mk_entry (job_name_of ''control_input_lidar'' 3 [] True 57 @ ''_SMALL'') d3,
           mk_entry (job_name_of ''control_input_lidar'' 3 ''x'' True 57) c3]"
  from loop_body_run [OF k2, where str_of = str_of and ck = ck and nf = 121 and h = h3
      and cs = ?cs3] obtain t4 d4 c4 h4 where
    4: "loop_body str_of ck ''control_input_lidar'' 121 ?cs3 h3 =
       (Inr (?cs3 @
          [mk_entry (job_name_of ''control_input_lidar'' 3 [] True 121) t4,
           mk_entry (job_name_of ''control_input_lidar'' 3 [] True 121 @ ''_SMALL'') d4,
           mk_entry (job_name_of ''control_input_lidar'' 3 ''x'' True 121) c4]), h4)"
    unfolding num_control_blocks_def by blast
  have "generation_loop str_of ck cs h =
       (Inr (?cs3 @
          [mk_entry (job_name_of ''control_input_lidar'' 3 [] True 121) t4,
           mk_entry (job_name_of ''control_input_lidar'' 3 [] True 121 @ ''_SMALL'') d4,
           mk_entry (job_name_of ''control_input_lidar'' 3 ''x'' True 121) c4]), h4)"
    using 1 2 [simplified] 3 [simplified] 4 [simplified]
    by (simp add: generation_loop_def all_hint_key_def andthen_def)
  then show ?thesis by auto
qed

lemma loop_names:
  "job_name_of ''control_input_hdmap'' 3 [] True 57
     = ''CTRL_7Bv1pt3_t2v_sv2mv_57frames_control_input_hdmap_block3_pretrain''"
  "job_name_of ''control_input_hdmap'' 3 ''x'' True 57
     = ''CTRL_7Bv1pt3_t2v_sv2mv_57frames_control_input_hdmap_block3_posttrain''"
  "job_name_of ''control_input_hdmap'' 3 [] True 121
     = ''CTRL_7Bv1pt3_t2v_sv2mv_121frames_control_input_hdmap_block3_pretrain''"
  "job_name_of ''control_input_hdmap'' 3 ''x'' True 121
     = ''CTRL_7Bv1pt3_t2v_sv2mv_121frames_control_input_hdmap_block3_posttrain''"
  "job_name_of ''control_input_lidar'' 3 [] True 57
     = ''CTRL_7Bv1pt3_t2v_sv2mv_57frames_control_input_lidar_block3_pretrain''"
  "job_name_of ''control_input_lidar'' 3 ''x'' True 57
     = ''CTRL_7Bv1pt3_t2v_sv2mv_57frames_control_input_lidar_block3_posttrain''"
  "job_name_of ''control_input_lidar'' 3 [] True 121
     = ''CTRL_7Bv1pt3_t2v_sv2mv_121frames_control_input_lidar_block3_pretrain''"
  "job_name_of ''control_input_lidar'' 3 ''x'' True 121
     = ''CTRL_7Bv1pt3_t2v_sv2mv_121frames_control_input_lidar_block3_posttrain''"
  by (simp_all add: job_name_of_def str_int_57 str_int_121 str_int_3)

section \<open>The claims about \<^verbatim>\<open>make_ctrlnet_config\<close>\<close>

text \<open>
  Claim C1. For \<^verbatim>\<open>hint_key="control_input_hdmap"\<close>, \<^verbatim>\<open>num_frames=121\<close>, an empty
  \<^verbatim>\<open>pretrain_model_path\<close>, \<^verbatim>\<open>t2v=True\<close> and three control blocks, on any store and
  for any checkpoint constants, the returned tree has the job name
  \<^verbatim>\<open>CTRL_7Bv1pt3_t2v_sv2mv_121frames_control_input_hdmap_block3_pretrain\<close>, the project
  \<^verbatim>\<open>cosmos_transfer1_pretrain\<close>, and 16 at index 1 of \<^verbatim>\<open>model.latent_shape\<close>.
\<close>

theorem pretrain_hdmap_121_scenario:
  "case make_ctrlnet_config ck ''control_input_hdmap'' 3 [] True 121 h of
     (b, h1) \<Rightarrow>
       lookup_path h1 b [''job'', ''name'']
         = Inr (StrV ''CTRL_7Bv1pt3_t2v_sv2mv_121frames_control_input_hdmap_block3_pretrain'') \<and>
       lookup_path h1 b [''job'', ''project''] = Inr (StrV ''cosmos_transfer1_pretrain'') \<and>
       map_option (\<lambda>shape. shape ! 1) (seq_items h1 (lookup_path h1 b [''model'', ''latent_shape'']))
         = Some (IntV 16)"
proof -
  obtain b h1 where build: "make_ctrlnet_config ck ''control_input_hdmap'' 3 [] True 121 h = (b, h1)"
    by (cases "make_ctrlnet_config ck ''control_input_hdmap'' 3 [] True 121 h")
  from ctrlnet_paths(1,2,7) [OF build] build show ?thesis
    by (simp add: loop_names job_project_of_def)
qed

theorem pretrain_hdmap_121_scenario_witness:
  "case make_ctrlnet_config example_checkpoints ''control_input_hdmap'' 3 [] True 121 [] of
     (b, h1) \<Rightarrow>
       lookup_path h1 b [''job'', ''name'']
         = Inr (StrV ''CTRL_7Bv1pt3_t2v_sv2mv_121frames_control_input_hdmap_block3_pretrain'') \<and>
       lookup_path h1 b [''job'', ''project''] = Inr (StrV ''cosmos_transfer1_pretrain'') \<and>
       map_option (\<lambda>shape. shape ! 1) (seq_items h1 (lookup_path h1 b [''model'', ''latent_shape'']))
         = Some (IntV 16)"
  by (rule pretrain_hdmap_121_scenario)

text \<open>
  Claim C2. For every number of control blocks the list at
  \<^verbatim>\<open>model.net_ctrl.layer_mask\<close> has \<open>num_blocks\<close> (28) entries, and entry \<open>i\<close> is
  \<^verbatim>\<open>True\<close> exactly when \<open>i\<close> is at least the number of control blocks.
\<close>

theorem layer_mask_by_control_blocks:
  "case make_ctrlnet_config ck hk ncb p t2v nf h of
     (b, h1) \<Rightarrow>
       (\<exists>mask. seq_items h1 (lookup_path h1 b [''model'', ''net_ctrl'', ''layer_mask'']) = Some mask \<and>
          length mask = num_blocks \<and> num_blocks = 28 \<and>
          (\<forall>i < num_blocks. mask ! i = BoolV (int i \<ge> ncb)))"
proof -
  obtain b h1 where build: "make_ctrlnet_config ck hk ncb p t2v nf h = (b, h1)"
    by (cases "make_ctrlnet_config ck hk ncb p t2v nf h")
  have "length (layer_mask_of ncb) = num_blocks"
    and "\<forall>i < num_blocks. layer_mask_of ncb ! i = BoolV (int i \<ge> ncb)"
    by (simp_all add: layer_mask_of_def)
  with ctrlnet_paths(8) [OF build] build show ?thesis
    by (simp add: num_blocks_def)
qed

theorem layer_mask_by_control_blocks_witness:
  "\<exists>b h1 mask.
     make_ctrlnet_config example_checkpoints ''control_input_lidar'' 3 [] True 57 [] = (b, h1) \<and>
     seq_items h1 (lookup_path h1 b [''model'', ''net_ctrl'', ''layer_mask'']) = Some mask \<and>
     length mask = 28 \<and> (2::nat) < num_blocks \<and> mask ! 2 = BoolV False \<and>
     (3::nat) < num_blocks \<and> mask ! 3 = BoolV True"
proof -
  obtain b h1 where build:
    "make_ctrlnet_config example_checkpoints ''control_input_lidar'' 3 [] True 57 [] = (b, h1)"
    by (cases "make_ctrlnet_config example_checkpoints ''control_input_lidar'' 3 [] True 57 []")
  from layer_mask_by_control_blocks [where ck = example_checkpoints
      and hk = "''control_input_lidar''" and ncb = 3 and p = "[]" and t2v = True and nf = 57
      and h = "[]"]
    build
  obtain mask where m: "seq_items h1 (lookup_path h1 b [''model'', ''net_ctrl'', ''layer_mask'']) = Some mask"
    "length mask = num_blocks" "num_blocks = 28" "\<forall>i < num_blocks. mask ! i = BoolV (int i \<ge> 3)"
    by auto
  from m(3,4) have "mask ! 2 = BoolV False" "mask ! 3 = BoolV True" by simp_all
  with build m show ?thesis by auto
qed

text \<open>
  Claim C5. With a non-empty \<^verbatim>\<open>pretrain_model_path\<close> the job name contains
  \<^verbatim>\<open>_posttrain\<close>, the project is \<^verbatim>\<open>cosmos_transfer1_posttrain\<close>, and
  \<^verbatim>\<open>checkpoint.load_path\<close> is the path that was passed, unchanged.
\<close>

theorem posttrain_scenario:
  assumes "pretrain_model_path \<noteq> []"
  shows "case make_ctrlnet_config ck hk ncb pretrain_model_path t2v nf h of
     (b, h1) \<Rightarrow>
       (\<exists>name. lookup_path h1 b [''job'', ''name''] = Inr (StrV name) \<and>
          sublist ''_posttrain'' name) \<and>
       lookup_path h1 b [''job'', ''project''] = Inr (StrV ''cosmos_transfer1_posttrain'') \<and>
       lookup_path h1 b [''checkpoint'', ''load_path''] = Inr (StrV pretrain_model_path)"
proof -
  obtain b h1 where build: "make_ctrlnet_config ck hk ncb pretrain_model_path t2v nf h = (b, h1)"
    by (cases "make_ctrlnet_config ck hk ncb pretrain_model_path t2v nf h")
  have "suffix ''_posttrain'' (job_name_of hk ncb pretrain_model_path t2v nf)"
    using assms by (simp add: job_name_of_def suffix_def)
  then have "sublist ''_posttrain'' (job_name_of hk ncb pretrain_model_path t2v nf)"
    by (rule suffix_imp_sublist)
  with ctrlnet_paths(1,2,4) [OF build] build assms show ?thesis
    by (simp add: job_project_of_def)
qed

theorem posttrain_scenario_witness:
  "''checkpoints/model.pt'' \<noteq> [] \<and>
   (\<exists>b h1. make_ctrlnet_config example_checkpoints ''control_input_hdmap'' 3
              ''checkpoints/model.pt'' False 57 [] = (b, h1) \<and>
      lookup_path h1 b [''job'', ''name'']
        = Inr (StrV ''CTRL_7Bv1pt3_lvg_sv2mv_57frames_control_input_hdmap_block3_posttrain'') \<and>
      sublist ''_posttrain'' ''CTRL_7Bv1pt3_lvg_sv2mv_57frames_control_input_hdmap_block3_posttrain'' \<and>
      lookup_path h1 b [''job'', ''project''] = Inr (StrV ''cosmos_transfer1_posttrain'') \<and>
      lookup_path h1 b [''checkpoint'', ''load_path''] = Inr (StrV ''checkpoints/model.pt''))"
proof -
  have ne: "''checkpoints/model.pt'' \<noteq> []" by simp
  obtain b h1 where build: "make_ctrlnet_config example_checkpoints ''control_input_hdmap'' 3
              ''checkpoints/model.pt'' False 57 [] = (b, h1)"
    by (cases "make_ctrlnet_config example_checkpoints ''control_input_hdmap'' 3
              ''checkpoints/model.pt'' False 57 []")
  have nm: "job_name_of ''control_input_hdmap'' 3 ''checkpoints/model.pt'' False 57
      = ''CTRL_7Bv1pt3_lvg_sv2mv_57frames_control_input_hdmap_block3_posttrain''"
    by (simp add: job_name_of_def str_int_57 str_int_3)
  from posttrain_scenario [OF ne, where ck = example_checkpoints
      and hk = "''control_input_hdmap''" and ncb = 3 and t2v = False and nf = 57 and h = "[]"]
    build ctrlnet_paths(1) [OF build] nm
  show ?thesis by auto
qed

text \<open>
  Claim C6. For every \<^verbatim>\<open>num_frames\<close>, index 1 of \<^verbatim>\<open>model.latent_shape\<close> is
  \<open>(num_frames - 1) div 8 + 1\<close> with floor division; 121 frames give 16 and 57 frames
  give 8.
\<close>

theorem latent_temporal_extent:
  "(case make_ctrlnet_config ck hk ncb p t2v nf h of
      (b, h1) \<Rightarrow>
        map_option (\<lambda>shape. shape ! 1) (seq_items h1 (lookup_path h1 b [''model'', ''latent_shape'']))
          = Some (IntV ((nf - 1) div 8 + 1))) \<and>
   (case make_ctrlnet_config ck hk ncb p t2v 121 h of
      (b, h1) \<Rightarrow>
        map_option (\<lambda>shape. shape ! 1) (seq_items h1 (lookup_path h1 b [''model'', ''latent_shape'']))
          = Some (IntV 16)) \<and>
   (case make_ctrlnet_config ck hk ncb p t2v 57 h of
      (b, h1) \<Rightarrow>
        map_option (\<lambda>shape. shape ! 1) (seq_items h1 (lookup_path h1 b [''model'', ''latent_shape'']))
          = Some (IntV 8))"
proof -
  have gen: "case make_ctrlnet_config ck hk ncb p t2v n h of
      (b, h1) \<Rightarrow>
        map_option (\<lambda>shape. shape ! 1) (seq_items h1 (lookup_path h1 b [''model'', ''latent_shape'']))
          = Some (IntV ((n - 1) div 8 + 1))" for n
  proof -
    obtain b h1 where build: "make_ctrlnet_config ck hk ncb p t2v n h = (b, h1)"
      by (cases "make_ctrlnet_config ck hk ncb p t2v n h")
    from ctrlnet_paths(7) [OF build] build show ?thesis by simp
  qed
  from gen [of nf] gen [of 121] gen [of 57] show ?thesis by simp
qed

theorem latent_temporal_extent_witness:
  "(case make_ctrlnet_config example_checkpoints ''control_input_hdmap'' 3 [] True (-7) [] of
      (b, h1) \<Rightarrow>
        map_option (\<lambda>shape. shape ! 1) (seq_items h1 (lookup_path h1 b [''model'', ''latent_shape'']))
          = Some (IntV 0))"
  using latent_temporal_extent [where ck = example_checkpoints
      and hk = "''control_input_hdmap''" and ncb = 3 and p = "[]" and t2v = True and nf = "-7"
      and h = "[]"]
  by simp

section \<open>The claims about \<^verbatim>\<open>make_small_config\<close>\<close>

text \<open>
  Claim C3. For every tree \<open>b\<close> that \<^verbatim>\<open>make_ctrlnet_config\<close> returns,
  \<^verbatim>\<open>make_small_config(b, net_ctrl=True)\<close> returns a tree \<open>s\<close> whose job group is
  \<^verbatim>\<open>debug\<close>, whose job name is that of \<open>b\<close> followed by \<^verbatim>\<open>_SMALL\<close>, whose
  \<^verbatim>\<open>model.net.num_blocks\<close> and \<^verbatim>\<open>model.net_ctrl.num_blocks\<close> are 2, whose
  \<^verbatim>\<open>layer_mask\<close> is computed from the new block count (two entries, entry \<open>i\<close> true
  exactly when \<open>i \<ge> 1\<close>) while the mask of \<open>b\<close> has 28 entries, whose tensor
  parallel size is 1 with sequence parallelism off, and whose two load paths are empty.
\<close>

theorem small_config_with_net_ctrl:
  "case make_ctrlnet_config ck hk ncb p t2v nf h of
     (b, h1) \<Rightarrow>
       (case make_small_config str_of b True h1 of
          (r, h2) \<Rightarrow>
            (\<exists>s name. r = Inr s \<and>
               lookup_path h1 b [''job'', ''name''] = Inr (StrV name) \<and>
               lookup_path h2 s [''job'', ''name''] = Inr (StrV (name @ ''_SMALL'')) \<and>
               lookup_path h2 s [''job'', ''group''] = Inr (StrV ''debug'') \<and>
               lookup_path h2 s [''model'', ''net'', ''num_blocks''] = Inr (IntV 2) \<and>
               lookup_path h2 s [''model'', ''net_ctrl'', ''num_blocks''] = Inr (IntV 2) \<and>
               seq_items h2 (lookup_path h2 s [''model'', ''net_ctrl'', ''layer_mask''])
                 = Some (map (\<lambda>i. BoolV (i \<ge> 1)) [0..<2]) \<and>
               map_option length
                   (seq_items h1 (lookup_path h1 b [''model'', ''net_ctrl'', ''layer_mask'']))
                 = Some 28 \<and>
               lookup_path h2 s [''model_parallel'', ''tensor_model_parallel_size'']
                 = Inr (IntV 1) \<and>
               lookup_path h2 s [''model_parallel'', ''sequence_parallel''] = Inr (BoolV False) \<and>
               lookup_path h2 s [''checkpoint'', ''load_path''] = Inr (StrV []) \<and>
               lookup_path h2 s [''model'', ''base_load_from'', ''load_path''] = Inr (StrV [])))"
proof -
  obtain b h1 where build: "make_ctrlnet_config ck hk ncb p t2v nf h = (b, h1)"
    by (cases "make_ctrlnet_config ck hk ncb p t2v nf h")
  obtain r h2 where run: "make_small_config str_of b True h1 = (r, h2)"
    by (cases "make_small_config str_of b True h1")
  have old: "map_option length
      (seq_items h1 (lookup_path h1 b [''model'', ''net_ctrl'', ''layer_mask''])) = Some 28"
    using ctrlnet_paths(8) [OF build] by (simp add: layer_mask_of_def num_blocks_def)
  from small_of_ctrlnet [OF build run] ctrlnet_paths(1) [OF build] old build run
  show ?thesis by (auto simp: upt_0_2)
qed

theorem small_config_with_net_ctrl_witness:
  "case make_ctrlnet_config example_checkpoints ''control_input_hdmap'' 3 [] True 121 [] of
     (b, h1) \<Rightarrow>
       (case make_small_config example_str_of b True h1 of
          (r, h2) \<Rightarrow>
            (\<exists>s. r = Inr s \<and>
               lookup_path h2 s [''job'', ''name'']
                 = Inr (StrV
                     ''CTRL_7Bv1pt3_t2v_sv2mv_121frames_control_input_hdmap_block3_pretrain_SMALL'') \<and>
               lookup_path h2 s [''job'', ''group''] = Inr (StrV ''debug'') \<and>
               seq_items h2 (lookup_path h2 s [''model'', ''net_ctrl'', ''layer_mask''])
                 = Some [BoolV False, BoolV True]))"
proof -
  obtain b h1 where build:
    "make_ctrlnet_config example_checkpoints ''control_input_hdmap'' 3 [] True 121 [] = (b, h1)"
    by (cases "make_ctrlnet_config example_checkpoints ''control_input_hdmap'' 3 [] True 121 []")
  obtain r h2 where run: "make_small_config example_str_of b True h1 = (r, h2)"
    by (cases "make_small_config example_str_of b True h1")
  from small_config_with_net_ctrl [where str_of = example_str_of and ck = example_checkpoints
      and hk = "''control_input_hdmap''" and ncb = 3 and p = "[]" and t2v = True and nf = 121
      and h = "[]"]
    ctrlnet_paths(1) [OF build] build run
  show ?thesis by (auto simp: loop_names upt_0_2)
qed

text \<open>
  Claim C10. With \<^verbatim>\<open>net_ctrl=False\<close>, the default, only \<^verbatim>\<open>model.net.num_blocks\<close>
  becomes 2: \<^verbatim>\<open>model.net_ctrl.num_blocks\<close> is still 28 and the layer mask still has the
  28 entries of the original, so the control branch no longer agrees with the block
  count of the shrunken net.
\<close>

theorem small_config_default_keeps_net_ctrl:
  "case make_ctrlnet_config ck hk ncb p t2v nf h of
     (b, h1) \<Rightarrow>
       (case make_small_config str_of b False h1 of
          (r, h2) \<Rightarrow>
            (\<exists>s mask. r = Inr s \<and>
               lookup_path h2 s [''model'', ''net'', ''num_blocks''] = Inr (IntV 2) \<and>
               lookup_path h2 s [''model'', ''net_ctrl'', ''num_blocks''] = Inr (IntV 28) \<and>
               seq_items h2 (lookup_path h2 s [''model'', ''net_ctrl'', ''layer_mask''])
                 = Some mask \<and>
               seq_items h1 (lookup_path h1 b [''model'', ''net_ctrl'', ''layer_mask''])
                 = Some mask \<and>
               length mask = 28))"
proof -
  obtain b h1 where build: "make_ctrlnet_config ck hk ncb p t2v nf h = (b, h1)"
    by (cases "make_ctrlnet_config ck hk ncb p t2v nf h")
  obtain r h2 where run: "make_small_config str_of b False h1 = (r, h2)"
    by (cases "make_small_config str_of b False h1")
  have "length (layer_mask_of ncb) = 28"
    by (simp add: layer_mask_of_def num_blocks_def)
  with small_of_ctrlnet [OF build run] ctrlnet_paths(8) [OF build] build run
  show ?thesis by (auto simp: num_blocks_def)
qed

theorem small_config_default_keeps_net_ctrl_witness:
  "case make_ctrlnet_config example_checkpoints ''control_input_lidar'' 3 [] True 57 [] of
     (b, h1) \<Rightarrow>
       (case make_small_config example_str_of b False h1 of
          (r, h2) \<Rightarrow>
            (\<exists>s mask. r = Inr s \<and>
               lookup_path h2 s [''model'', ''net'', ''num_blocks''] = Inr (IntV 2) \<and>
               lookup_path h2 s [''model'', ''net_ctrl'', ''num_blocks''] = Inr (IntV 28) \<and>
               seq_items h2 (lookup_path h2 s [''model'', ''net_ctrl'', ''layer_mask''])
                 = Some mask \<and>
               seq_items h1 (lookup_path h1 b [''model'', ''net_ctrl'', ''layer_mask''])
                 = Some mask \<and>
               length mask = 28))"
  by (rule small_config_default_keeps_net_ctrl)

text \<open>
  A small tree whose job name is a float. The f-string of line 217 renders it, so
  \<^verbatim>\<open>make_small_config\<close> returns a tree for it as for any other name.
\<close>

definition float_named_tree :: heap where
  "float_named_tree =
     [Tree [(K ''job'', Ref 1), (K ''model'', Ref 2), (K ''model_parallel'', Ref 5),
            (K ''checkpoint'', Ref 6)],
      Tree [(K ''group'', StrV ''g''), (K ''name'', FloatV ''1.5'')],
      Tree [(K ''net'', Ref 3), (K ''base_load_from'', Ref 4)],
      Node ''VideoExtendGeneralDIT'' [(K ''num_blocks'', IntV 28)],
      Tree [(K ''load_path'', StrV ''base.pt'')],
      Tree [(K ''sequence_parallel'', BoolV True)],
      Tree [(K ''load_path'', StrV ''ckpt.pt'')]]"

lemma float_named_tree_copy:
  "deepcopy float_named_tree (Ref 0) = (Ref 7, float_named_tree @
     [Tree [(K ''job'', Ref 8), (K ''model'', Ref 9), (K ''model_parallel'', Ref 12),
            (K ''checkpoint'', Ref 13)],
      Tree [(K ''group'', StrV ''g''), (K ''name'', FloatV ''1.5'')],
      Tree [(K ''net'', Ref 10), (K ''base_load_from'', Ref 11)],
      Node ''VideoExtendGeneralDIT'' [(K ''num_blocks'', IntV 28)],
      Tree [(K ''load_path'', StrV ''base.pt'')],
      Tree [(K ''sequence_parallel'', BoolV True)],
      Tree [(K ''load_path'', StrV ''ckpt.pt'')]])"
  by (simp add: deepcopy_def float_named_tree_def tasks_for_def store_val_def upt_rec
      nth_append)

lemma float_named_tree_small:
  "\<exists>h'. make_small_config str_of (Ref 0) False float_named_tree = (Inr (Ref 7), h') \<and>
     (\<exists>s. lookup_path h' (Ref 7) [''job'', ''name''] = Inr (StrV (s @ ''_SMALL'')))"
  apply (simp only: make_small_config_def float_named_tree_copy prod.case)
  apply (simp add: small_config_overwrites_def assign_def setitem_def getitem_def andthen_def
      get_path_def render_def py_str_def float_named_tree_def nth_append)
  done

text \<open>
  Claim C4. \<^verbatim>\<open>make_small_config\<close> does not modify its input. Whatever the store, the
  argument and the flag, and whether the call returns or raises, every object that
  existed before the call is unchanged afterwards, so every path of the input reads the
  same value and every list of the input has the same items, nested Deferred
  Construction Nodes included. Every object reachable from the returned tree was
  allocated during the call, so no assignment to an item of any of them changes an
  object that existed before.
\<close>

theorem make_small_config_leaves_input:
  "case make_small_config str_of b nc h of
     (r, h') \<Rightarrow>
       take (length h) h' = h \<and>
       (\<forall>ks v. lookup_path h b ks = Inr v \<longrightarrow> lookup_path h' b ks = Inr v) \<and>
       (\<forall>x. seq_items h (Inr x) \<noteq> None \<longrightarrow> seq_items h' (Inr x) = seq_items h (Inr x)) \<and>
       (\<forall>s a. r = Inr s \<and> reach h' s a \<longrightarrow>
          length h \<le> a \<and>
          (\<forall>k v h''. setitem h' (Ref a) k v = Inr h'' \<longrightarrow> take (length h) h'' = h))"
proof -
  obtain r h' where run: "make_small_config str_of b nc h = (r, h')"
    by (cases "make_small_config str_of b nc h")
  note fr = make_small_config_frame [OF run]
  have paths: "lookup_path h' b ks = Inr v" if "lookup_path h b ks = Inr v" for ks v
    using that fr(2) by (rule lookup_path_extend)
  have seqs: "seq_items h' (Inr x) = seq_items h (Inr x)" if "seq_items h (Inr x) \<noteq> None" for x
  proof -
    from that obtain a where x: "x = Ref a" and a: "a < length h"
      by (cases x) (auto simp: seq_items_def split: if_splits)
    from fr(2) a have "h' ! a = h ! a" by (metis nth_take)
    with x a fr(1) show ?thesis by (simp add: seq_items_def)
  qed
  have new: "length h \<le> a \<and>
      (\<forall>k v h''. setitem h' (Ref a) k v = Inr h'' \<longrightarrow> take (length h) h'' = h)"
    if s: "r = Inr s" and re: "reach h' s a" for s a
  proof -
    from reach_fresh [OF re fr(3) fr(4) [OF s]] have a: "length h \<le> a" .
    with setitem_above fr(2) show ?thesis by metis
  qed
  from run fr(2) paths seqs new show ?thesis by auto
qed

theorem make_small_config_leaves_input_witness:
  "(case make_ctrlnet_config example_checkpoints ''control_input_hdmap'' 3 [] True 121 [] of
     (b, h1) \<Rightarrow>
       (case make_small_config example_str_of b True h1 of
          (r, h') \<Rightarrow>
            take (length h1) h' = h1 \<and>
            lookup_path h1 b [''model'', ''net'', ''num_blocks''] = Inr (IntV 28) \<and>
            lookup_path h' b [''model'', ''net'', ''num_blocks''] = Inr (IntV 28) \<and>
            (\<exists>a h''. r = Inr (Ref a) \<and> reach h' (Ref a) a \<and> length h1 \<le> a \<and>
               setitem h' (Ref a) ''job'' NoneV = Inr h'' \<and> take (length h1) h'' = h1))) \<and>
   (\<exists>h' h''. make_small_config example_str_of (Ref 0) False float_named_tree
        = (Inr (Ref 7), h') \<and>
      reach h' (Ref 7) 7 \<and> length float_named_tree \<le> 7 \<and>
      setitem h' (Ref 7) ''job'' NoneV = Inr h'' \<and>
      take (length float_named_tree) h'' = float_named_tree)"
proof -
  obtain b h1 where build:
    "make_ctrlnet_config example_checkpoints ''control_input_hdmap'' 3 [] True 121 [] = (b, h1)"
    by (cases "make_ctrlnet_config example_checkpoints ''control_input_hdmap'' 3 [] True 121 []")
  obtain r h' where run: "make_small_config example_str_of b True h1 = (r, h')"
    by (cases "make_small_config example_str_of b True h1")
  from small_of_ctrlnet [OF build run] obtain s
    where s: "r = Inr s" and g: "lookup_path h' s [''job'', ''group''] = Inr (StrV ''debug'')"
    by auto
  from g obtain j where "getitem h' s ''job'' = Inr j" by (auto split: sum.splits)
  then have d: "is_dict h' s" by (rule getitem_is_dict)
  then obtain a where a: "s = Ref a" by (cases s) (auto simp: is_dict_def)
  from d have set: "setitem h' (Ref a) ''job'' NoneV = Inr (upd h' s ''job'' NoneV)"
    using a by (simp add: setitem_upd)
  have re: "reach h' (Ref a) a" by (rule reach_root)
  note old = ctrlnet_paths(5) [OF build]
  have inst: "take (length h1) h' = h1 \<and>
       (\<forall>ks v. lookup_path h1 b ks = Inr v \<longrightarrow> lookup_path h' b ks = Inr v) \<and>
       (\<forall>x. seq_items h1 (Inr x) \<noteq> None \<longrightarrow> seq_items h' (Inr x) = seq_items h1 (Inr x)) \<and>
       (\<forall>s a. r = Inr s \<and> reach h' s a \<longrightarrow>
          length h1 \<le> a \<and>
          (\<forall>k v h''. setitem h' (Ref a) k v = Inr h'' \<longrightarrow> take (length h1) h'' = h1))"
    using make_small_config_leaves_input [where str_of = example_str_of and b = b
        and nc = True and h = h1,
        unfolded run prod.case] .
  from inst have t: "take (length h1) h' = h1" by blast
  from inst old have p: "lookup_path h' b [''model'', ''net'', ''num_blocks'']
      = Inr (IntV (int num_blocks))" by blast
  from inst s a re have n: "length h1 \<le> a" by blast
  from inst s a re set have u: "take (length h1) (upd h' s ''job'' NoneV) = h1" by blast
  have "take (length h1) h' = h1 \<and>
            lookup_path h1 b [''model'', ''net'', ''num_blocks''] = Inr (IntV 28) \<and>
            lookup_path h' b [''model'', ''net'', ''num_blocks''] = Inr (IntV 28) \<and>
            (\<exists>a h''. r = Inr (Ref a) \<and> reach h' (Ref a) a \<and> length h1 \<le> a \<and>
               setitem h' (Ref a) ''job'' NoneV = Inr h'' \<and> take (length h1) h'' = h1)"
    using t p old n u s a re set by (simp add: num_blocks_def del: lookup_path.simps)
  then have A: "case make_ctrlnet_config example_checkpoints ''control_input_hdmap'' 3 [] True 121 [] of
       (b, h1) \<Rightarrow>
         (case make_small_config example_str_of b True h1 of
            (r, h') \<Rightarrow>
              take (length h1) h' = h1 \<and>
              lookup_path h1 b [''model'', ''net'', ''num_blocks''] = Inr (IntV 28) \<and>
              lookup_path h' b [''model'', ''net'', ''num_blocks''] = Inr (IntV 28) \<and>
              (\<exists>a h''. r = Inr (Ref a) \<and> reach h' (Ref a) a \<and> length h1 \<le> a \<and>
                 setitem h' (Ref a) ''job'' NoneV = Inr h'' \<and> take (length h1) h'' = h1))"
    by (simp only: build run prod.case)
  from float_named_tree_small [of example_str_of] obtain h2 s2
    where fl: "make_small_config example_str_of (Ref 0) False float_named_tree
        = (Inr (Ref 7), h2)"
      and fn: "lookup_path h2 (Ref 7) [''job'', ''name''] = Inr (StrV (s2 @ ''_SMALL''))"
    by blast
  from fn obtain j2 where "getitem h2 (Ref 7) ''job'' = Inr j2" by (auto split: sum.splits)
  then have d2: "is_dict h2 (Ref 7)" by (rule getitem_is_dict)
  then have set2: "setitem h2 (Ref 7) ''job'' NoneV = Inr (upd h2 (Ref 7) ''job'' NoneV)"
    by (simp add: setitem_upd)
  have re2: "reach h2 (Ref 7) 7" by (rule reach_root)
  have inst2: "take (length float_named_tree) h2 = float_named_tree \<and>
       (\<forall>ks v. lookup_path float_named_tree (Ref 0) ks = Inr v \<longrightarrow>
          lookup_path h2 (Ref 0) ks = Inr v) \<and>
       (\<forall>x. seq_items float_named_tree (Inr x) \<noteq> None \<longrightarrow>
          seq_items h2 (Inr x) = seq_items float_named_tree (Inr x)) \<and>
       (\<forall>s a. (Inr (Ref 7) :: error + val) = Inr s \<and> reach h2 s a \<longrightarrow>
          length float_named_tree \<le> a \<and>
          (\<forall>k v h''. setitem h2 (Ref a) k v = Inr h'' \<longrightarrow>
             take (length float_named_tree) h'' = float_named_tree))"
    using make_small_config_leaves_input [where str_of = example_str_of and b = "Ref 0"
        and nc = False and h = float_named_tree, unfolded fl prod.case] .
  from inst2 re2 have n2: "length float_named_tree \<le> 7" by blast
  from inst2 re2 set2
  have u2: "take (length float_named_tree) (upd h2 (Ref 7) ''job'' NoneV) = float_named_tree"
    by blast
  have B: "(\<exists>h' h''. make_small_config example_str_of (Ref 0) False float_named_tree
          = (Inr (Ref 7), h') \<and>
        reach h' (Ref 7) 7 \<and> length float_named_tree \<le> 7 \<and>
        setitem h' (Ref 7) ''job'' NoneV = Inr h'' \<and>
        take (length float_named_tree) h'' = float_named_tree)"
    using fl re2 n2 set2 u2 by blast
  from A B show ?thesis by (rule conjI)
qed

section \<open>The claims about the generation loop\<close>

lemma example_tp_path:
  "path_join ckpt_root
     [dirname ''nvidia/Cosmos-Transfer1-7B-Sample-AV-Single2MultiView/t2w_hdmap_control.pt'',
      ''checkpoints_tp'',
      basename ''nvidia/Cosmos-Transfer1-7B-Sample-AV-Single2MultiView/t2w_hdmap_control.pt'']
   = ''checkpoints/nvidia/Cosmos-Transfer1-7B-Sample-AV-Single2MultiView/checkpoints_tp/t2w_hdmap_control.pt''"
  "path_join ckpt_root
     [''checkpoints_tp'',
      basename ''nvidia/Cosmos-Transfer1-7B-Sample-AV-Single2MultiView/t2w_hdmap_control.pt'']
   = ''checkpoints/checkpoints_tp/t2w_hdmap_control.pt''"
  by (simp_all add: path_join_def join_step_def dirname_def basename_def ckpt_root_def)

lemma loop_body_load_path:
  assumes key: "key \<in> set all_hint_key"
  shows "\<exists>cs' h' entry. loop_body str_of ck key nf cs h = (Inr cs', h') \<and>
     map_of (mv_model_names ck) (drop (length ''control_input_'') key) = Some entry \<and>
     lookup_path h' (entry_node (last cs')) [''checkpoint'', ''load_path'']
       = Inr (StrV (path_join ckpt_root [dirname entry, ''checkpoints_tp'', basename entry]))"
proof -
  from loop_body_run [OF key, where str_of = str_of and ck = ck and nf = nf and h = h
      and cs = cs]
  obtain t2v_config debug_config entry config h2 h3 where
    e: "map_of (mv_model_names ck) (drop (length ''control_input_'') key) = Some entry"
    and b3: "make_ctrlnet_config ck key num_control_blocks
       (path_join ckpt_root [dirname entry, ''checkpoints_tp'', basename entry]) True nf h2
       = (config, h3)"
    and run: "loop_body str_of ck key nf cs h =
       (Inr (cs @
          [mk_entry (job_name_of key num_control_blocks [] True nf) t2v_config,
           mk_entry (job_name_of key num_control_blocks [] True nf @ ''_SMALL'') debug_config,
           mk_entry (job_name_of key num_control_blocks ''x'' True nf) config]), h3)"
    by blast
  from ctrlnet_paths(4) [OF b3] run e show ?thesis
    by (simp add: mk_entry_def)
qed

text \<open>
  Claim C7, as amended. For each hint key of the generation loop, the
  \<^verbatim>\<open>checkpoint.load_path\<close> of the post-training tree that the pass stores last is
  \<^verbatim>\<open>os.path.join\<close> of the checkpoint root, the directory of the checkpoint-table
  entry for the short form of the hint key, \<^verbatim>\<open>checkpoints_tp\<close>, and the base filename
  of that entry; the short form is the hint key without its \<^verbatim>\<open>control_input_\<close>
  prefix. The claim as written leaves the directory of the entry out of the join.
\<close>

theorem tp_load_path_includes_directory:
  assumes "key \<in> set all_hint_key"
  shows "case loop_body str_of ck key num_frames cs h of
     (r, h') \<Rightarrow>
       (\<exists>cs' entry. r = Inr cs' \<and>
          map_of (mv_model_names ck) (drop (length ''control_input_'') key) = Some entry \<and>
          lookup_path h' (entry_node (last cs')) [''checkpoint'', ''load_path'']
            = Inr (StrV (path_join ckpt_root
                     [dirname entry, ''checkpoints_tp'', basename entry])))"
  using loop_body_load_path [OF assms, where str_of = str_of and ck = ck
      and nf = num_frames and cs = cs and h = h] by auto

theorem tp_load_path_includes_directory_witness:
  "''control_input_hdmap'' \<in> set all_hint_key \<and>
   (case loop_body example_str_of example_checkpoints ''control_input_hdmap'' 57 [] [] of
     (r, h') \<Rightarrow>
       (\<exists>cs'. r = Inr cs' \<and>
          lookup_path h' (entry_node (last cs')) [''checkpoint'', ''load_path'']
            = Inr (StrV ''checkpoints/nvidia/Cosmos-Transfer1-7B-Sample-AV-Single2MultiView/checkpoints_tp/t2w_hdmap_control.pt'')))"
proof -
  have k: "''control_input_hdmap'' \<in> set all_hint_key"
    by (simp add: all_hint_key_def)
  from tp_load_path_includes_directory [OF k, where str_of = example_str_of
      and ck = example_checkpoints and num_frames = 57 and cs = "[]" and h = "[]"]
  show ?thesis
    using k by (auto simp: mv_model_names_def example_checkpoints_def example_tp_path
        split: prod.splits)
qed

text \<open>
  With a table entry that has a directory part, the load path is not the join of the
  root, \<^verbatim>\<open>checkpoints_tp\<close> and the base filename alone.
\<close>

theorem tp_load_path_counterexample:
  "case loop_body example_str_of example_checkpoints ''control_input_hdmap'' 57 [] [] of
     (r, h') \<Rightarrow>
       (case r of
          Inl e \<Rightarrow> False
        | Inr cs' \<Rightarrow>
            lookup_path h' (entry_node (last cs')) [''checkpoint'', ''load_path'']
              \<noteq> Inr (StrV (path_join ckpt_root
                      [''checkpoints_tp'',
                       basename (SV2MV_t2v_HDMAP2WORLD_CONTROLNET_7B_CHECKPOINT_PATH_dbg
                                   example_checkpoints)])))"
proof -
  have k: "''control_input_hdmap'' \<in> set all_hint_key"
    by (simp add: all_hint_key_def)
  from loop_body_load_path [OF k, where str_of = example_str_of
      and ck = example_checkpoints and nf = 57 and cs = "[]" and h = "[]"]
  show ?thesis
    by (auto simp: mv_model_names_def example_checkpoints_def example_tp_path)
qed

text \<open>
  Claim C8. For each hint key of \<^verbatim>\<open>all_hint_key\<close> and each frame count, one pass of
  the loop makes exactly three calls of \<^verbatim>\<open>cs.store\<close>, in this order: the tree built
  with an empty pretrain path, the tree that \<^verbatim>\<open>make_small_config\<close> with
  \<^verbatim>\<open>net_ctrl=True\<close> returns for it, and the tree built with the (non-empty)
  checkpoint path; no debug variant of the last one is stored. Over the two hint keys
  and the frame counts 57 and 121 the loop makes 12 calls.
\<close>

theorem loop_stores_three_per_combination:
  "(\<forall>key \<in> set all_hint_key. \<forall>num_frames cs h.
      \<exists>t2v_config h1 debug_config h2 tp config h3.
        make_ctrlnet_config ck key num_control_blocks [] True num_frames h = (t2v_config, h1) \<and>
        make_small_config str_of t2v_config True h1 = (Inr debug_config, h2) \<and>
        tp_ckpt_path ck key h2 = (Inr tp, h2) \<and> tp \<noteq> [] \<and>
        make_ctrlnet_config ck key num_control_blocks tp True num_frames h2 = (config, h3) \<and>
        loop_body str_of ck key num_frames cs h =
          (Inr (cs @
             [mk_entry (job_name_of key num_control_blocks [] True num_frames) t2v_config,
              mk_entry (job_name_of key num_control_blocks [] True num_frames @ ''_SMALL'')
                debug_config,
              mk_entry (job_name_of key num_control_blocks tp True num_frames) config]), h3)) \<and>
   (\<exists>new h'. generation_loop str_of ck cs0 h0 = (Inr (cs0 @ new), h') \<and> length new = 12)"
proof (intro conjI ballI allI)
  fix key num_frames cs h
  assume key: "key \<in> set all_hint_key"
  from loop_body_run [OF key, where str_of = str_of and ck = ck and nf = num_frames
      and h = h and cs = cs]
  obtain t2v_config h1 debug_config h2 entry config h3 where
    1: "make_ctrlnet_config ck key num_control_blocks [] True num_frames h = (t2v_config, h1)"
    and 2: "make_small_config str_of t2v_config True h1 = (Inr debug_config, h2)"
    and e: "map_of (mv_model_names ck) (drop (length ''control_input_'') key) = Some entry"
    and 3: "make_ctrlnet_config ck key num_control_blocks
       (path_join ckpt_root [dirname entry, ''checkpoints_tp'', basename entry]) True num_frames h2
       = (config, h3)"
    and run: "loop_body str_of ck key num_frames cs h =
       (Inr (cs @
          [mk_entry (job_name_of key num_control_blocks [] True num_frames) t2v_config,
           mk_entry (job_name_of key num_control_blocks [] True num_frames @ ''_SMALL'')
             debug_config,
           mk_entry (job_name_of key num_control_blocks ''x'' True num_frames) config]), h3)"
    by blast
  let ?tp = "path_join ckpt_root [dirname entry, ''checkpoints_tp'', basename entry]"
  from tp_ckpt_path_keys [OF key, of ck h2] e
  have tp: "tp_ckpt_path ck key h2 = (Inr ?tp, h2)" by auto
  have ne: "?tp \<noteq> []" by (rule tp_path_nonempty)
  then have "job_name_of key num_control_blocks ?tp True num_frames
      = job_name_of key num_control_blocks ''x'' True num_frames"
    by (simp add: job_name_posttrain)
  with 1 2 3 tp ne run
  show "\<exists>t2v_config h1 debug_config h2 tp config h3.
        make_ctrlnet_config ck key num_control_blocks [] True num_frames h = (t2v_config, h1) \<and>
        make_small_config str_of t2v_config True h1 = (Inr debug_config, h2) \<and>
        tp_ckpt_path ck key h2 = (Inr tp, h2) \<and> tp \<noteq> [] \<and>
        make_ctrlnet_config ck key num_control_blocks tp True num_frames h2 = (config, h3) \<and>
        loop_body str_of ck key num_frames cs h =
          (Inr (cs @
             [mk_entry (job_name_of key num_control_blocks [] True num_frames) t2v_config,
              mk_entry (job_name_of key num_control_blocks [] True num_frames @ ''_SMALL'')
                debug_config,
              mk_entry (job_name_of key num_control_blocks tp True num_frames) config]), h3)"
    by (intro exI [of _ t2v_config] exI [of _ h1] exI [of _ debug_config] exI [of _ h2]
        exI [of _ ?tp] exI [of _ config] exI [of _ h3]) simp
next
  from generation_loop_run [where str_of = str_of and ck = ck and cs = cs0 and h = h0]
  show "\<exists>new h'. generation_loop str_of ck cs0 h0 = (Inr (cs0 @ new), h') \<and> length new = 12"
    by (elim exE) (rule exI, rule exI, rule conjI, assumption, simp)
qed

theorem loop_stores_three_per_combination_witness:
  "''control_input_lidar'' \<in> set all_hint_key \<and>
   (\<exists>t2v_config h1 debug_config h2 tp config h3.
        make_ctrlnet_config example_checkpoints ''control_input_lidar'' num_control_blocks []
          True 121 [] = (t2v_config, h1) \<and>
        make_small_config example_str_of t2v_config True h1 = (Inr debug_config, h2) \<and>
        tp_ckpt_path example_checkpoints ''control_input_lidar'' h2 = (Inr tp, h2) \<and> tp \<noteq> [] \<and>
        make_ctrlnet_config example_checkpoints ''control_input_lidar'' num_control_blocks tp
          True 121 h2 = (config, h3) \<and>
        loop_body example_str_of example_checkpoints ''control_input_lidar'' 121 [] [] =
          (Inr [mk_entry ''CTRL_7Bv1pt3_t2v_sv2mv_121frames_control_input_lidar_block3_pretrain''
                  t2v_config,
                mk_entry
                  ''CTRL_7Bv1pt3_t2v_sv2mv_121frames_control_input_lidar_block3_pretrain_SMALL''
                  debug_config,
                mk_entry ''CTRL_7Bv1pt3_t2v_sv2mv_121frames_control_input_lidar_block3_posttrain''
                  config], h3)) \<and>
   (\<exists>new h'. generation_loop example_str_of example_checkpoints [] [] = (Inr new, h') \<and> length new = 12)"
proof -
  have k: "''control_input_lidar'' \<in> set all_hint_key"
    by (simp add: all_hint_key_def)
  note T = loop_stores_three_per_combination [where str_of = example_str_of
      and ck = example_checkpoints and ?cs0.0 = "[]"
      and ?h0.0 = "[]"]
  from T have A: "\<forall>key \<in> set all_hint_key. \<forall>num_frames cs h.
      \<exists>t2v_config h1 debug_config h2 tp config h3.
        make_ctrlnet_config example_checkpoints key num_control_blocks [] True num_frames h
          = (t2v_config, h1) \<and>
        make_small_config example_str_of t2v_config True h1 = (Inr debug_config, h2) \<and>
        tp_ckpt_path example_checkpoints key h2 = (Inr tp, h2) \<and> tp \<noteq> [] \<and>
        make_ctrlnet_config example_checkpoints key num_control_blocks tp True num_frames h2
          = (config, h3) \<and>
        loop_body example_str_of example_checkpoints key num_frames cs h =
          (Inr (cs @
             [mk_entry (job_name_of key num_control_blocks [] True num_frames) t2v_config,
              mk_entry (job_name_of key num_control_blocks [] True num_frames @ ''_SMALL'')
                debug_config,
              mk_entry (job_name_of key num_control_blocks tp True num_frames) config]), h3)"
    and B: "\<exists>new h'. generation_loop example_str_of example_checkpoints [] [] = (Inr ([] @ new), h') \<and>
      length new = 12"
    by blast+
  from A k obtain t2v_config h1 debug_config h2 tp config h3 where
    1: "make_ctrlnet_config example_checkpoints ''control_input_lidar'' num_control_blocks []
          True 121 [] = (t2v_config, h1)"
    "make_small_config example_str_of t2v_config True h1 = (Inr debug_config, h2)"
    "tp_ckpt_path example_checkpoints ''control_input_lidar'' h2 = (Inr tp, h2)" "tp \<noteq> []"
    "make_ctrlnet_config example_checkpoints ''control_input_lidar'' num_control_blocks tp
          True 121 h2 = (config, h3)"
    and run: "loop_body example_str_of example_checkpoints ''control_input_lidar'' 121 [] [] =
          (Inr ([] @
             [mk_entry (job_name_of ''control_input_lidar'' num_control_blocks [] True 121)
                t2v_config,
              mk_entry (job_name_of ''control_input_lidar'' num_control_blocks [] True 121
                @ ''_SMALL'') debug_config,
              mk_entry (job_name_of ''control_input_lidar'' num_control_blocks tp True 121)
                config]), h3)"
    by blast
  from 1(4) have "job_name_of ''control_input_lidar'' num_control_blocks tp True 121
      = job_name_of ''control_input_lidar'' 3 ''x'' True 121"
    by (simp add: job_name_posttrain num_control_blocks_def)
  with run have "loop_body example_str_of example_checkpoints ''control_input_lidar'' 121 [] [] =
          (Inr [mk_entry ''CTRL_7Bv1pt3_t2v_sv2mv_121frames_control_input_lidar_block3_pretrain''
                  t2v_config,
                mk_entry
                  ''CTRL_7Bv1pt3_t2v_sv2mv_121frames_control_input_lidar_block3_pretrain_SMALL''
                  debug_config,
                mk_entry ''CTRL_7Bv1pt3_t2v_sv2mv_121frames_control_input_lidar_block3_posttrain''
                  config], h3)"
    by (simp add: loop_names num_control_blocks_def)
  with k 1 B show ?thesis by auto
qed

text \<open>
  Claim C9. The twelve names under which the loop stores trees are those listed here,
  in the group \<^verbatim>\<open>experiment\<close>: for each hint key and frame count a name ending in
  \<^verbatim>\<open>_pretrain\<close>, one ending in \<^verbatim>\<open>_pretrain_SMALL\<close> and one ending in
  \<^verbatim>\<open>_posttrain\<close>. They are pairwise distinct, so no call of the loop shadows an
  earlier one.
\<close>

theorem loop_names_distinct:
  "case generation_loop str_of ck cs h of
     (r, h') \<Rightarrow>
       (\<exists>new. r = Inr (cs @ new) \<and>
          map entry_name new =
            [StrV ''CTRL_7Bv1pt3_t2v_sv2mv_57frames_control_input_hdmap_block3_pretrain'',
             StrV ''CTRL_7Bv1pt3_t2v_sv2mv_57frames_control_input_hdmap_block3_pretrain_SMALL'',
             StrV ''CTRL_7Bv1pt3_t2v_sv2mv_57frames_control_input_hdmap_block3_posttrain'',
             StrV ''CTRL_7Bv1pt3_t2v_sv2mv_121frames_control_input_hdmap_block3_pretrain'',
             StrV ''CTRL_7Bv1pt3_t2v_sv2mv_121frames_control_input_hdmap_block3_pretrain_SMALL'',
             StrV ''CTRL_7Bv1pt3_t2v_sv2mv_121frames_control_input_hdmap_block3_posttrain'',
             StrV ''CTRL_7Bv1pt3_t2v_sv2mv_57frames_control_input_lidar_block3_pretrain'',
             StrV ''CTRL_7Bv1pt3_t2v_sv2mv_57frames_control_input_lidar_block3_pretrain_SMALL'',
             StrV ''CTRL_7Bv1pt3_t2v_sv2mv_57frames_control_input_lidar_block3_posttrain'',
             StrV ''CTRL_7Bv1pt3_t2v_sv2mv_121frames_control_input_lidar_block3_pretrain'',
             StrV ''CTRL_7Bv1pt3_t2v_sv2mv_121frames_control_input_lidar_block3_pretrain_SMALL'',
             StrV ''CTRL_7Bv1pt3_t2v_sv2mv_121frames_control_input_lidar_block3_posttrain''] \<and>
          map entry_group new = replicate 12 ''experiment'' \<and>
          distinct (map entry_name new))"
proof -
  from generation_loop_run [where str_of = str_of and ck = ck and cs = cs and h = h]
  obtain t1 d1 c1 t2 d2 c2 t3 d3 c3 t4 d4 c4 h' where
    run: "generation_loop str_of ck cs h =
       (Inr (cs @
          [mk_entry (job_name_of ''control_input_hdmap'' 3 [] True 57) t1,
           mk_entry (job_name_of ''control_input_hdmap'' 3 [] True 57 @ ''_SMALL'') d1,
           mk_entry (job_name_of ''control_input_hdmap'' 3 ''x'' True 57) c1,
           mk_entry (job_name_of ''control_input_hdmap'' 3 [] True 121) t2,
           mk_entry (job_name_of ''control_input_hdmap'' 3 [] True 121 @ ''_SMALL'') d2,
           mk_entry (job_name_of ''control_input_hdmap'' 3 ''x'' True 121) c2,
           mk_entry (job_name_of ''control_input_lidar'' 3 [] True 57) t3,
           mk_entry (job_name_of ''control_input_lidar'' 3 [] True 57 @ ''_SMALL'') d3,
           mk_entry (job_name_of ''control_input_lidar'' 3 ''x'' True 57) c3,
           mk_entry (job_name_of ''control_input_lidar'' 3 [] True 121) t4,
           mk_entry (job_name_of ''control_input_lidar'' 3 [] True 121 @ ''_SMALL'') d4,
           mk_entry (job_name_of ''control_input_lidar'' 3 ''x'' True 121) c4]), h')"
    by blast
  show ?thesis
    unfolding run prod.case
    by (rule exI, rule conjI, rule refl)
      (simp add: mk_entry_def loop_names numeral_eq_Suc)
qed

theorem loop_names_distinct_witness:
  "case generation_loop example_str_of example_checkpoints [] [] of
     (r, h') \<Rightarrow>
       (\<exists>new. r = Inr new \<and> length new = 12 \<and> distinct (map entry_name new) \<and>
          entry_name (new ! 1)
            = StrV ''CTRL_7Bv1pt3_t2v_sv2mv_57frames_control_input_hdmap_block3_pretrain_SMALL'')"
proof -
  obtain r h' where run: "generation_loop example_str_of example_checkpoints [] [] = (r, h')"
    by (cases "generation_loop example_str_of example_checkpoints [] []")
  note T = loop_names_distinct [where str_of = example_str_of and ck = example_checkpoints
      and cs = "[]" and h = "[]", unfolded run prod.case]
  from T obtain new where new: "r = Inr ([] @ new) \<and>
          map entry_name new =
            [StrV ''CTRL_7Bv1pt3_t2v_sv2mv_57frames_control_input_hdmap_block3_pretrain'',
             StrV ''CTRL_7Bv1pt3_t2v_sv2mv_57frames_control_input_hdmap_block3_pretrain_SMALL'',
             StrV ''CTRL_7Bv1pt3_t2v_sv2mv_57frames_control_input_hdmap_block3_posttrain'',
             StrV ''CTRL_7Bv1pt3_t2v_sv2mv_121frames_control_input_hdmap_block3_pretrain'',
             StrV ''CTRL_7Bv1pt3_t2v_sv2mv_121frames_control_input_hdmap_block3_pretrain_SMALL'',
             StrV ''CTRL_7Bv1pt3_t2v_sv2mv_121frames_control_input_hdmap_block3_posttrain'',
             StrV ''CTRL_7Bv1pt3_t2v_sv2mv_57frames_control_input_lidar_block3_pretrain'',
             StrV ''CTRL_7Bv1pt3_t2v_sv2mv_57frames_control_input_lidar_block3_pretrain_SMALL'',
             StrV ''CTRL_7Bv1pt3_t2v_sv2mv_57frames_control_input_lidar_block3_posttrain'',
             StrV ''CTRL_7Bv1pt3_t2v_sv2mv_121frames_control_input_lidar_block3_pretrain'',
             StrV ''CTRL_7Bv1pt3_t2v_sv2mv_121frames_control_input_lidar_block3_pretrain_SMALL'',
             StrV ''CTRL_7Bv1pt3_t2v_sv2mv_121frames_control_input_lidar_block3_posttrain''] \<and>
          map entry_group new = replicate 12 ''experiment'' \<and>
          distinct (map entry_name new)"
    by (rule exE)
  from new have r: "r = Inr new" by simp
  from new have d: "distinct (map entry_name new)" by (elim conjE)
  from new have nm: "map entry_name new =
            [StrV ''CTRL_7Bv1pt3_t2v_sv2mv_57frames_control_input_hdmap_block3_pretrain'',
             StrV ''CTRL_7Bv1pt3_t2v_sv2mv_57frames_control_input_hdmap_block3_pretrain_SMALL'',
             StrV ''CTRL_7Bv1pt3_t2v_sv2mv_57frames_control_input_hdmap_block3_posttrain'',
             StrV ''CTRL_7Bv1pt3_t2v_sv2mv_121frames_control_input_hdmap_block3_pretrain'',
             StrV ''CTRL_7Bv1pt3_t2v_sv2mv_121frames_control_input_hdmap_block3_pretrain_SMALL'',
             StrV ''CTRL_7Bv1pt3_t2v_sv2mv_121frames_control_input_hdmap_block3_posttrain'',
             StrV ''CTRL_7Bv1pt3_t2v_sv2mv_57frames_control_input_lidar_block3_pretrain'',
             StrV ''CTRL_7Bv1pt3_t2v_sv2mv_57frames_control_input_lidar_block3_pretrain_SMALL'',
             StrV ''CTRL_7Bv1pt3_t2v_sv2mv_57frames_control_input_lidar_block3_posttrain'',
             StrV ''CTRL_7Bv1pt3_t2v_sv2mv_121frames_control_input_lidar_block3_pretrain'',
             StrV ''CTRL_7Bv1pt3_t2v_sv2mv_121frames_control_input_lidar_block3_pretrain_SMALL'',
             StrV ''CTRL_7Bv1pt3_t2v_sv2mv_121frames_control_input_lidar_block3_posttrain'']"
    by (elim conjE)
  have "length (map entry_name new) = 12" by (simp only: nm) simp
  then have len: "length new = 12" by simp
  have "map entry_name new ! 1
      = StrV ''CTRL_7Bv1pt3_t2v_sv2mv_57frames_control_input_hdmap_block3_pretrain_SMALL''"
    by (simp only: nm) simp
  with len have one: "entry_name (new ! 1)
      = StrV ''CTRL_7Bv1pt3_t2v_sv2mv_57frames_control_input_hdmap_block3_pretrain_SMALL''"
    by simp
  have "\<exists>new. r = Inr new \<and> length new = 12 \<and> distinct (map entry_name new) \<and>
          entry_name (new ! 1)
            = StrV ''CTRL_7Bv1pt3_t2v_sv2mv_57frames_control_input_hdmap_block3_pretrain_SMALL''"
    using r len d one by (intro exI [of _ new] conjI)
  then show ?thesis
    unfolding run prod.case .
qed

end
